theory Spec2Isabelle
  imports Main
begin

section \<open>The user service of \<^verbatim>\<open>backend/user/user.ts\<close>\<close>

text \<open>
  The service functions of \<^verbatim>\<open>user.ts\<close> are embedded as functions that take the state
  they read and return their result together with the state they leave behind. The
  state is the three tables the functions touch (\<^verbatim>\<open>User\<close>, \<^verbatim>\<open>InviteCode\<close>,
  \<^verbatim>\<open>SigningChallenge\<close>) and the lines written with \<^verbatim>\<open>console.error\<close>. The collaborators
  that live outside the file are parameters: the identity provider
  (\<^verbatim>\<open>privyClient.getUser\<close>), the signature verifier (\<^verbatim>\<open>viemClient.verifyMessage\<close>),
  the clock, and the two enrichment calls of \<^verbatim>\<open>../socialProfile\<close>.

  A rejected promise or a thrown exception is a value (\<open>Throws\<close>), a returned
  \<^verbatim>\<open>{ error }\<close> is \<open>Error\<close>, a returned \<^verbatim>\<open>{ data }\<close> is \<open>Data\<close>. Failures of the
  infrastructure (store or provider unreachable) are not modelled; the exceptions that
  are modelled are the ones the store raises as a function of its contents: a record that
  is not found and a violated unique constraint. Each function is one call run on its
  own; for \<open>createUser\<close> the two halves of a call, before and after its last wait
  ahead of the transaction, are given as well, so that two calls can overlap.
\<close>

subsection \<open>Strings\<close>

text \<open>
  A string is a list of code units below 256 (Latin-1). On these,
  \<^verbatim>\<open>String.prototype.toLowerCase\<close> maps \<^verbatim>\<open>A-Z\<close> and the accented capitals
  \<^verbatim>\<open>0xC0-0xDE\<close> (without the multiplication sign \<^verbatim>\<open>0xD7\<close>) to the code unit 32 above,
  and \<^verbatim>\<open>String.prototype.trim\<close> strips TAB, LF, VT, FF, CR, SP and NBSP at both ends.
\<close>

definition toLowerCase_char :: "char \<Rightarrow> char" where
  "toLowerCase_char c =
     (let n = (of_char c :: nat)
      in if (65 \<le> n \<and> n \<le> 90) \<or> (192 \<le> n \<and> n \<le> 222 \<and> n \<noteq> 215)
         then char_of (n + 32) else c)"

definition toLowerCase :: "string \<Rightarrow> string" where
  "toLowerCase str = map toLowerCase_char str"

definition isWhiteSpace :: "char \<Rightarrow> bool" where
  "isWhiteSpace c = ((of_char c :: nat) \<in> {9, 10, 11, 12, 13, 32, 160})"

definition trim :: "string \<Rightarrow> string" where
  "trim str = rev (dropWhile isWhiteSpace (rev (dropWhile isWhiteSpace str)))"

text \<open>
  \<^verbatim>\<open>${Date.now()}\<close> in a template literal: the decimal digits of an integer (of fewer
  than 22 digits, as every timestamp is), with a minus sign below zero.
\<close>

definition digit_char :: "nat \<Rightarrow> char" where
  "digit_char d = char_of (48 + d)"

function decimal :: "nat \<Rightarrow> string" where
  "decimal n = (if n < 10 then [digit_char n] else decimal (n div 10) @ [digit_char (n mod 10)])"
  by pat_completeness auto
termination
  by (relation "measure (\<lambda>n. n)") auto

declare decimal.simps [simp del]

definition number_toString :: "int \<Rightarrow> string" where
  "number_toString i = (if i < 0 then CHR ''-'' # decimal (nat (- i)) else decimal (nat i))"

subsection \<open>Time\<close>

text \<open>
  A \<^verbatim>\<open>Date\<close> is its number of milliseconds since the epoch.
  \<^verbatim>\<open>differenceInMinutes(left, right)\<close> of date-fns is the number of full minutes between
  the two dates: the difference in milliseconds divided by 60000 and rounded towards
  zero.
\<close>

definition differenceInMinutes :: "int \<Rightarrow> int \<Rightarrow> int" where
  "differenceInMinutes dateLeft dateRight =
     (let diff = dateLeft - dateRight
      in if 0 \<le> diff then diff div 60000 else - ((- diff) div 60000))"

subsection \<open>Rows, state and results\<close>

text \<open>
  The rows carry the columns that \<^verbatim>\<open>user.ts\<close> reads or writes in the functions embedded
  below. \<^verbatim>\<open>id\<close> and \<^verbatim>\<open>isActive\<close> occur in two tables and carry the table's name here.
\<close>

record User =
  user_id :: int
  privyUserId :: string
  wallet :: string
  socialWallet :: "string option"
  user_isActive :: bool
  invitedById :: "int option"

record InviteCode =
  code_id :: int
  code :: string
  code_isActive :: bool
  used :: int
  maxUses :: int

record SigningChallenge =
  userId :: int
  publicKey :: string
  message :: string
  updatedAt :: int

record State =
  users :: "User list"
  inviteCodes :: "InviteCode list"
  signingChallenges :: "SigningChallenge list"
  console :: "(string \<times> string) list"

datatype ERRORS =
    UNAUTHORIZED
  | USER_ALREADY_EXISTS
  | WALLET_MISSING
  | INVALID_INVITE_CODE
  | CODE_ALREADY_USED
  | CHALLENGE_EXPIRED
  | INVALID_SIGNATURE

datatype PrismaError = RecordNotFound | UniqueConstraintFailed

datatype 'a Result = Data 'a | Error ERRORS | Throws PrismaError

text \<open>One awaited store call after another: the first failure ends the sequence.\<close>

definition andThen ::
  "'a Result \<times> State \<Rightarrow> ('a \<Rightarrow> State \<Rightarrow> 'b Result \<times> State) \<Rightarrow> 'b Result \<times> State" where
  "andThen r f =
     (case r of
        (Data x, s) \<Rightarrow> f x s
      | (Error e, s) \<Rightarrow> (Error e, s)
      | (Throws e, s) \<Rightarrow> (Throws e, s))"

subsection \<open>The identity provider\<close>

text \<open>
  \<^verbatim>\<open>privyClient.getUser\<close> is a function from the identity token to the provider's user,
  or to nothing. A linked account of the provider is a tagged union on \<^verbatim>\<open>type\<close>; only
  the \<^verbatim>\<open>"wallet"\<close> variant has an address, a wallet client type and a connector type.
\<close>

datatype LinkedAccount =
    Wallet (address: string) (walletClientType: "string option") (connectorType: "string option")
  | NonWallet string

record PrivyUser =
  privy_id :: string
  linkedAccounts :: "LinkedAccount list"

fun isEmbeddedWallet :: "LinkedAccount \<Rightarrow> bool" where
  "isEmbeddedWallet (Wallet a clientType connector) =
     (clientType = Some ''privy'' \<and> connector = Some ''embedded'')"
| "isEmbeddedWallet (NonWallet t) = False"

subsection \<open>The store\<close>

text \<open>
  The Prisma schema is not part of the sources at hand. What the code itself fixes:
  \<^verbatim>\<open>findUnique\<close>, \<^verbatim>\<open>upsert\<close>, \<^verbatim>\<open>update\<close> and \<^verbatim>\<open>delete\<close> accept a \<^verbatim>\<open>where\<close> only on a
  unique column, so \<^verbatim>\<open>User.id\<close>, \<^verbatim>\<open>User.privyUserId\<close>, \<^verbatim>\<open>User.wallet\<close>,
  \<^verbatim>\<open>InviteCode.id\<close>, \<^verbatim>\<open>InviteCode.code\<close> and \<^verbatim>\<open>SigningChallenge.userId\<close> are unique.
  A table is the list of its rows in insertion order.
\<close>

definition user_findUnique_privyUserId :: "State \<Rightarrow> string \<Rightarrow> User option" where
  "user_findUnique_privyUserId s p = find (\<lambda>u. privyUserId u = p) (users s)"

definition user_findUnique_id :: "State \<Rightarrow> int \<Rightarrow> User option" where
  "user_findUnique_id s i = find (\<lambda>u. user_id u = i) (users s)"

definition user_findUniqueOrThrow_privyUserId :: "State \<Rightarrow> string \<Rightarrow> User Result \<times> State" where
  "user_findUniqueOrThrow_privyUserId s p =
     (case user_findUnique_privyUserId s p of
        None \<Rightarrow> (Throws RecordNotFound, s)
      | Some u \<Rightarrow> (Data u, s))"

definition inviteCode_findUnique_code :: "State \<Rightarrow> string \<Rightarrow> InviteCode option" where
  "inviteCode_findUnique_code s c = find (\<lambda>r. code r = c) (inviteCodes s)"

definition inviteCode_findUnique_id :: "State \<Rightarrow> int \<Rightarrow> InviteCode option" where
  "inviteCode_findUnique_id s i = find (\<lambda>r. code_id r = i) (inviteCodes s)"

definition signingChallenge_findFirst_userId :: "State \<Rightarrow> int \<Rightarrow> SigningChallenge option" where
  "signingChallenge_findFirst_userId s uid = find (\<lambda>c. userId c = uid) (signingChallenges s)"

definition signingChallenge_findFirstOrThrow_userId ::
  "State \<Rightarrow> int \<Rightarrow> SigningChallenge Result \<times> State" where
  "signingChallenge_findFirstOrThrow_userId s uid =
     (case signingChallenge_findFirst_userId s uid of
        None \<Rightarrow> (Throws RecordNotFound, s)
      | Some c \<Rightarrow> (Data c, s))"

text \<open>
  Modelled from the spec: the identity column of \<^verbatim>\<open>User\<close>, declared in the schema. The
  spec's data model gives a user an internal numeric identity; the store assigns it on
  creation. Here it is one above the largest identity in the table, and at least 1.
\<close>

definition next_user_id :: "State \<Rightarrow> int" where
  "next_user_id s = fold max (map user_id (users s)) 0 + 1"

text \<open>
  \<^verbatim>\<open>user.create({ data: { privyUserId, invitedById, wallet, isActive } })\<close>: refused when
  a row already holds the identity reference or the wallet.
\<close>

definition user_create :: "State \<Rightarrow> string \<Rightarrow> int \<Rightarrow> string \<Rightarrow> bool \<Rightarrow> User Result \<times> State" where
  "user_create s p invitedBy w active =
     (if list_ex (\<lambda>u. privyUserId u = p \<or> wallet u = w) (users s)
      then (Throws UniqueConstraintFailed, s)
      else
        (let newUser = \<lparr>user_id = next_user_id s, privyUserId = p, wallet = w,
                         socialWallet = None, user_isActive = active,
                         invitedById = Some invitedBy\<rparr>
         in (Data newUser, s\<lparr>users := users s @ [newUser]\<rparr>)))"

text \<open>\<^verbatim>\<open>inviteCode.update({ where: { id }, data: { used } })\<close>.\<close>

definition inviteCode_update_used :: "State \<Rightarrow> int \<Rightarrow> int \<Rightarrow> InviteCode Result \<times> State" where
  "inviteCode_update_used s i n =
     (case inviteCode_findUnique_id s i of
        None \<Rightarrow> (Throws RecordNotFound, s)
      | Some r \<Rightarrow>
          (Data (r\<lparr>used := n\<rparr>),
           s\<lparr>inviteCodes :=
               map (\<lambda>r. if code_id r = i then r\<lparr>used := n\<rparr> else r) (inviteCodes s)\<rparr>))"

text \<open>\<^verbatim>\<open>signingChallenge.delete({ where: { userId } })\<close>.\<close>

definition signingChallenge_delete :: "State \<Rightarrow> int \<Rightarrow> SigningChallenge Result \<times> State" where
  "signingChallenge_delete s uid =
     (case signingChallenge_findFirst_userId s uid of
        None \<Rightarrow> (Throws RecordNotFound, s)
      | Some c \<Rightarrow>
          (Data c, s\<lparr>signingChallenges := filter (\<lambda>c. userId c \<noteq> uid) (signingChallenges s)\<rparr>))"

text \<open>
  Modelled from the spec: the unique constraint on \<^verbatim>\<open>User.socialWallet\<close>, declared in
  the schema. The spec's data model has the social wallet optional and unique when
  present. With it, \<^verbatim>\<open>user.update({ where: { id }, data: { socialWallet } })\<close> is
  refused when another row already holds the social wallet, as it is when the row is
  missing.
\<close>

definition user_update_socialWallet :: "State \<Rightarrow> int \<Rightarrow> string \<Rightarrow> User Result \<times> State" where
  "user_update_socialWallet s i w =
     (case user_findUnique_id s i of
        None \<Rightarrow> (Throws RecordNotFound, s)
      | Some u \<Rightarrow>
          if list_ex (\<lambda>v. user_id v \<noteq> i \<and> socialWallet v = Some w) (users s)
          then (Throws UniqueConstraintFailed, s)
          else
            (Data (u\<lparr>socialWallet := Some w\<rparr>),
             s\<lparr>users :=
                 map (\<lambda>v. if user_id v = i then v\<lparr>socialWallet := Some w\<rparr> else v) (users s)\<rparr>))"

text \<open>
  Modelled from the spec: the \<^verbatim>\<open>updatedAt\<close> column of \<^verbatim>\<open>SigningChallenge\<close>, declared in
  the schema. The spec's data model calls it the last-updated timestamp, refreshed when
  the challenge is replaced: the store sets it to its time \<open>t\<close> whenever it writes
  the row, in
  \<^verbatim>\<open>signingChallenge.upsert({ where: { userId }, update: { message, publicKey },
  create: { message, userId, publicKey } })\<close> on the update path as on the create path.
\<close>

definition signingChallenge_upsert ::
  "State \<Rightarrow> int \<Rightarrow> string \<Rightarrow> string \<Rightarrow> int \<Rightarrow> SigningChallenge Result \<times> State" where
  "signingChallenge_upsert s uid msg pk t =
     (case signingChallenge_findFirst_userId s uid of
        Some c \<Rightarrow>
          (Data (c\<lparr>message := msg, publicKey := pk, updatedAt := t\<rparr>),
           s\<lparr>signingChallenges :=
               map (\<lambda>c. if userId c = uid
                         then c\<lparr>message := msg, publicKey := pk, updatedAt := t\<rparr> else c)
                 (signingChallenges s)\<rparr>)
      | None \<Rightarrow>
          (let c = \<lparr>userId = uid, publicKey = pk, message = msg, updatedAt = t\<rparr>
           in (Data c, s\<lparr>signingChallenges := signingChallenges s @ [c]\<rparr>)))"

text \<open>\<^verbatim>\<open>user.findMany({ where: { socialWallet: { in: addresses } } })\<close>: a null column matches nothing.\<close>

definition user_findMany_socialWallet_in :: "State \<Rightarrow> string list \<Rightarrow> User list" where
  "user_findMany_socialWallet_in s addresses =
     filter (\<lambda>u. case socialWallet u of None \<Rightarrow> False | Some w \<Rightarrow> w \<in> set addresses) (users s)"

text \<open>
  \<^verbatim>\<open>prisma.$transaction(async tx => ...)\<close>: the callback's writes are kept when it
  returns and discarded when it throws.
\<close>

definition transaction :: "(State \<Rightarrow> 'a Result \<times> State) \<Rightarrow> State \<Rightarrow> 'a Result \<times> State" where
  "transaction f s =
     (case f s of
        (Throws e, tx) \<Rightarrow> (Throws e, s)
      | (r, tx) \<Rightarrow> (r, tx))"

text \<open>
  The unique constraints of the store, as a predicate on a state: the six columns named
  above, and the social wallets that are present.
\<close>

definition social_wallets :: "User list \<Rightarrow> string list" where
  "social_wallets us = concat (map (\<lambda>u. case socialWallet u of None \<Rightarrow> [] | Some w \<Rightarrow> [w]) us)"

definition store_ok :: "State \<Rightarrow> bool" where
  "store_ok s =
     (distinct (map user_id (users s)) \<and>
      distinct (map privyUserId (users s)) \<and>
      distinct (map wallet (users s)) \<and>
      distinct (social_wallets (users s)) \<and>
      distinct (map code_id (inviteCodes s)) \<and>
      distinct (map code (inviteCodes s)) \<and>
      distinct (map userId (signingChallenges s)))"

text \<open>The invariant of the invite codes: no counter is above its cap.\<close>

definition codes_within_cap :: "State \<Rightarrow> bool" where
  "codes_within_cap s = list_all (\<lambda>c. used c \<le> maxUses c) (inviteCodes s)"

subsection \<open>checkUsersExist\<close>

definition checkUsersExist :: "string list \<Rightarrow> State \<Rightarrow> User list Result \<times> State" where
  "checkUsersExist wallets s =
     (let addresses = map toLowerCase wallets;
          res = user_findMany_socialWallet_in s addresses
      in (Data res, s))"

subsection \<open>createUser\<close>

definition createUser ::
  "(string \<Rightarrow> PrivyUser option) \<Rightarrow> string \<Rightarrow> string \<Rightarrow> State \<Rightarrow> User Result \<times> State" where
  "createUser privyClient_getUser privyUserId' inviteCode' s =
     (let inviteCode = trim inviteCode' in
      case privyClient_getUser privyUserId' of
        None \<Rightarrow> (Error UNAUTHORIZED, s)
      | Some privyUser \<Rightarrow>
          (case user_findUnique_privyUserId s privyUserId' of
             Some existingUser \<Rightarrow> (Error USER_ALREADY_EXISTS, s)
           | None \<Rightarrow>
               (case find isEmbeddedWallet (linkedAccounts privyUser) of
                  None \<Rightarrow> (Error WALLET_MISSING, s)
                | Some embeddedWallet \<Rightarrow>
                    (let addr = toLowerCase (address embeddedWallet) in
                     case inviteCode_findUnique_code s inviteCode of
                       None \<Rightarrow> (Error INVALID_INVITE_CODE, s)
                     | Some existingCode \<Rightarrow>
                         if code_isActive existingCode = False
                         then (Error INVALID_INVITE_CODE, s)
                         else if used existingCode \<ge> maxUses existingCode
                         then (Error CODE_ALREADY_USED, s)
                         else
                           transaction
                             (\<lambda>tx.
                                andThen
                                  (user_create tx (privy_id privyUser) (code_id existingCode)
                                     addr True)
                                  (\<lambda>newUser tx.
                                     andThen
                                       (inviteCode_update_used tx (code_id existingCode)
                                          (used existingCode + 1))
                                       (\<lambda>updated tx. (Data newUser, tx))))
                             s))))"

text \<open>
  \<open>createUser\<close> awaits the store several times, and other requests run while it
  waits. Its two halves, split at the last such point, between the checks of lines
  88-117, which only read, and the transaction of lines 119-139, which writes: the
  first half hands the second the local variables \<^verbatim>\<open>privyUser\<close>, \<^verbatim>\<open>address\<close> and
  \<^verbatim>\<open>existingCode\<close>. With these, two calls that overlap are the first halves of both
  followed by the second halves of both.
\<close>

record Registration =
  reg_privyUser :: PrivyUser
  reg_address :: string
  reg_existingCode :: InviteCode

definition createUser_validate ::
  "(string \<Rightarrow> PrivyUser option) \<Rightarrow> string \<Rightarrow> string \<Rightarrow> State \<Rightarrow> ERRORS + Registration" where
  "createUser_validate privyClient_getUser privyUserId' inviteCode' s =
     (let inviteCode = trim inviteCode' in
      case privyClient_getUser privyUserId' of
        None \<Rightarrow> Inl UNAUTHORIZED
      | Some privyUser \<Rightarrow>
          (case user_findUnique_privyUserId s privyUserId' of
             Some existingUser \<Rightarrow> Inl USER_ALREADY_EXISTS
           | None \<Rightarrow>
               (case find isEmbeddedWallet (linkedAccounts privyUser) of
                  None \<Rightarrow> Inl WALLET_MISSING
                | Some embeddedWallet \<Rightarrow>
                    (let addr = toLowerCase (address embeddedWallet) in
                     case inviteCode_findUnique_code s inviteCode of
                       None \<Rightarrow> Inl INVALID_INVITE_CODE
                     | Some existingCode \<Rightarrow>
                         if code_isActive existingCode = False
                         then Inl INVALID_INVITE_CODE
                         else if used existingCode \<ge> maxUses existingCode
                         then Inl CODE_ALREADY_USED
                         else
                           Inr \<lparr>reg_privyUser = privyUser, reg_address = addr,
                                 reg_existingCode = existingCode\<rparr>))))"

definition createUser_commit :: "Registration \<Rightarrow> State \<Rightarrow> User Result \<times> State" where
  "createUser_commit reg s =
     transaction
       (\<lambda>tx.
          andThen
            (user_create tx (privy_id (reg_privyUser reg)) (code_id (reg_existingCode reg))
               (reg_address reg) True)
            (\<lambda>newUser tx.
               andThen
                 (inviteCode_update_used tx (code_id (reg_existingCode reg))
                    (used (reg_existingCode reg) + 1))
                 (\<lambda>updated tx. (Data newUser, tx))))
       s"

subsection \<open>linkNewWallet\<close>

text \<open>
  The two enrichment calls are code of \<^verbatim>\<open>../socialProfile\<close>, which is not in the sources;
  what they write (profile and recommendation rows) is outside the three tables of the
  state. A call either completes, throws while it is being called, or returns a promise
  that rejects later. \<^verbatim>\<open>updateUserSocialProfiles\<close> is awaited inside the \<^verbatim>\<open>try\<close>, so both
  kinds of failure reach the \<^verbatim>\<open>catch\<close>; \<^verbatim>\<open>updateRecommendations\<close> is called without
  \<^verbatim>\<open>await\<close>, so only a throw during the call does.
\<close>

datatype Effect = Completes | ThrowsSync string | Rejects string

definition try_side_effects ::
  "(int \<Rightarrow> string \<Rightarrow> Effect) \<Rightarrow> (string \<Rightarrow> Effect) \<Rightarrow> int \<Rightarrow> string \<Rightarrow> string option" where
  "try_side_effects updateUserSocialProfiles updateRecommendations uid w =
     (case updateUserSocialProfiles uid w of
        ThrowsSync err \<Rightarrow> Some err
      | Rejects err \<Rightarrow> Some err
      | Completes \<Rightarrow>
          (case updateRecommendations w of
             ThrowsSync err \<Rightarrow> Some err
           | Rejects err \<Rightarrow> None
           | Completes \<Rightarrow> None))"

definition console_error :: "string \<Rightarrow> string \<Rightarrow> State \<Rightarrow> State" where
  "console_error msg err s = s\<lparr>console := console s @ [(msg, err)]\<rparr>"

text \<open>\<^verbatim>\<open>Math.abs(differenceInMinutes(new Date(), challenge.updatedAt)) > 15\<close>, at the time \<open>now\<close>.\<close>

definition challenge_expired :: "int \<Rightarrow> SigningChallenge \<Rightarrow> bool" where
  "challenge_expired now challenge = (\<bar>differenceInMinutes now (updatedAt challenge)\<bar> > 15)"

text \<open>The transaction of \<open>linkNewWallet\<close>: clear the challenge, then set the social wallet.\<close>

definition linkNewWallet_transaction ::
  "State \<Rightarrow> User \<Rightarrow> SigningChallenge \<Rightarrow> User Result \<times> State" where
  "linkNewWallet_transaction s existingUser challenge =
     transaction
       (\<lambda>tx.
          andThen (signingChallenge_delete tx (user_id existingUser))
            (\<lambda>deleted tx.
               user_update_socialWallet tx (user_id existingUser)
                 (toLowerCase (publicKey challenge))))
       s"

definition linkNewWallet ::
  "(string \<Rightarrow> string \<Rightarrow> string \<Rightarrow> bool) \<Rightarrow> (int \<Rightarrow> string \<Rightarrow> Effect) \<Rightarrow> (string \<Rightarrow> Effect) \<Rightarrow>
   int \<Rightarrow> string \<Rightarrow> string \<Rightarrow> State \<Rightarrow> User Result \<times> State" where
  "linkNewWallet verifyMessage updateUserSocialProfiles updateRecommendations now
     privyUserId' signedMessage s =
     andThen (user_findUniqueOrThrow_privyUserId s privyUserId')
       (\<lambda>existingUser s.
          andThen (signingChallenge_findFirstOrThrow_userId s (user_id existingUser))
            (\<lambda>challenge s.
               if challenge_expired now challenge
               then (Error CHALLENGE_EXPIRED, s)
               else if \<not> verifyMessage (publicKey challenge) (message challenge) signedMessage
               then (Error INVALID_SIGNATURE, s)
               else
                 andThen (linkNewWallet_transaction s existingUser challenge)
                   (\<lambda>user s.
                      (case try_side_effects updateUserSocialProfiles updateRecommendations
                              (user_id user) (toLowerCase (publicKey challenge)) of
                         Some err \<Rightarrow>
                           (Data user,
                            console_error ''Error while updating social profiles: '' err s)
                       | None \<Rightarrow> (Data user, s)))))"

subsection \<open>generateChallenge\<close>

text \<open>
  \<open>now\<close> is what \<^verbatim>\<open>Date.now()\<close> returns while the message is built, \<open>storeTime\<close> the
  time at which the store writes the row.
\<close>

definition challenge_message :: "int \<Rightarrow> string \<Rightarrow> string" where
  "challenge_message now pk =
     [CHR 0x0A] @ ''I'' @ [CHR 0x27] @ ''m verifying the ownership of this wallet for builderfi.'' @
     [CHR 0x0A] @ ''Timestamp: '' @ number_toString now @
     [CHR 0x0A] @ ''Wallet: '' @ pk @
     [CHR 0x0A] @ ''  ''"

definition generateChallenge ::
  "int \<Rightarrow> int \<Rightarrow> string \<Rightarrow> string \<Rightarrow> State \<Rightarrow> SigningChallenge Result \<times> State" where
  "generateChallenge now storeTime privyUserId' publicKey' s =
     andThen (user_findUniqueOrThrow_privyUserId s privyUserId')
       (\<lambda>user s.
          (let challenge = challenge_message now publicKey'
           in signingChallenge_upsert s (user_id user) challenge publicKey' storeTime))"

section \<open>Example states\<close>

text \<open>
  A small store used to run the functions on concrete inputs: three users (the second
  without a social wallet and with a pending challenge), an unused invite code, an
  exhausted one and a retired one.
\<close>

definition ex_user :: "int \<Rightarrow> string \<Rightarrow> string \<Rightarrow> string option \<Rightarrow> User" where
  "ex_user i p w sw =
     \<lparr>user_id = i, privyUserId = p, wallet = w, socialWallet = sw, user_isActive = True,
      invitedById = None\<rparr>"

definition ex_state :: State where
  "ex_state =
     \<lparr>users = [ex_user 1 ''did:privy:alice'' ''0xa11ce'' (Some ''0xaaa''),
               ex_user 2 ''did:privy:bob'' ''0xb0b'' None,
               ex_user 3 ''did:privy:carol'' ''0xca401'' (Some ''0xccc'')],
      inviteCodes =
        [\<lparr>code_id = 1, code = ''ABC123'', code_isActive = True, used = 0, maxUses = 1\<rparr>,
         \<lparr>code_id = 2, code = ''FULL'', code_isActive = True, used = 3, maxUses = 3\<rparr>,
         \<lparr>code_id = 3, code = ''RETIRED'', code_isActive = False, used = 2, maxUses = 2\<rparr>],
      signingChallenges =
        [\<lparr>userId = 2, publicKey = ''0xAbC'', message = ''sign me'', updatedAt = 0\<rparr>],
      console = []\<rparr>"

text \<open>
  An identity provider that knows Dave (an external wallet and an embedded one), Alice
  (already registered) and Erin (no embedded wallet), and the row Dave's registration
  creates.
\<close>

definition ex_getUser :: "string \<Rightarrow> PrivyUser option" where
  "ex_getUser p =
     (if p = ''did:privy:dave'' then
        Some \<lparr>privy_id = ''did:privy:dave'',
              linkedAccounts =
                [NonWallet ''email'',
                 Wallet ''0xFEED'' (Some ''metamask'') (Some ''injected''),
                 Wallet ''0xDA7E'' (Some ''privy'') (Some ''embedded'')]\<rparr>
      else if p = ''did:privy:alice'' then
        Some \<lparr>privy_id = ''did:privy:alice'',
              linkedAccounts = [Wallet ''0xA11CE'' (Some ''privy'') (Some ''embedded'')]\<rparr>
      else if p = ''did:privy:erin'' then
        Some \<lparr>privy_id = ''did:privy:erin'',
              linkedAccounts = [NonWallet ''phone'', Wallet ''0xE417'' (Some ''metamask'') None]\<rparr>
      else None)"

definition ex_dave :: User where
  "ex_dave =
     \<lparr>user_id = 4, privyUserId = ''did:privy:dave'', wallet = ''0xda7e'', socialWallet = None,
      user_isActive = True, invitedById = Some 1\<rparr>"

text \<open>
  A toy signature scheme, exact in the address: the signature of a message under an
  address is the text \<open>signed:<address>:<message>\<close>. Bob's row, and the example store
  with the candidate address of Bob's challenge replaced by one that, lower-cased, is
  already Alice's social wallet.
\<close>

definition ex_verifyMessage :: "string \<Rightarrow> string \<Rightarrow> string \<Rightarrow> bool" where
  "ex_verifyMessage addr msg signature' = (signature' = ''signed:'' @ addr @ '':'' @ msg)"

definition ex_bob :: User where
  "ex_bob = ex_user 2 ''did:privy:bob'' ''0xb0b'' None"

definition ex_state_taken :: State where
  "ex_state_taken =
     ex_state\<lparr>signingChallenges :=
       [\<lparr>userId = 2, publicKey = ''0xAAA'', message = ''sign me'', updatedAt = 0\<rparr>]\<rparr>"

text \<open>Enrichment calls that complete, and ones that fail.\<close>

definition ex_profiles_ok :: "int \<Rightarrow> string \<Rightarrow> Effect" where
  "ex_profiles_ok uid w = Completes"

definition ex_profiles_fail :: "int \<Rightarrow> string \<Rightarrow> Effect" where
  "ex_profiles_fail uid w = Rejects ''profile service unreachable''"

definition ex_recommendations_ok :: "string \<Rightarrow> Effect" where
  "ex_recommendations_ok w = Completes"

text \<open>
  Two newcomers, Dave and Frank, each with an embedded wallet; what the checks of their
  registrations with the code \<open>ABC123\<close> hand to the transaction when both read the
  example store; and the row Frank's registration creates after Dave's.
\<close>

definition ex_getUser_newcomers :: "string \<Rightarrow> PrivyUser option" where
  "ex_getUser_newcomers p =
     (if p = ''did:privy:dave'' then
        Some \<lparr>privy_id = ''did:privy:dave'',
              linkedAccounts = [Wallet ''0xDA7E'' (Some ''privy'') (Some ''embedded'')]\<rparr>
      else if p = ''did:privy:frank'' then
        Some \<lparr>privy_id = ''did:privy:frank'',
              linkedAccounts = [Wallet ''0xF4A2'' (Some ''privy'') (Some ''embedded'')]\<rparr>
      else None)"

definition ex_code_unused :: InviteCode where
  "ex_code_unused =
     \<lparr>code_id = 1, code = ''ABC123'', code_isActive = True, used = 0, maxUses = 1\<rparr>"

definition ex_reg_dave :: Registration where
  "ex_reg_dave =
     \<lparr>reg_privyUser =
        \<lparr>privy_id = ''did:privy:dave'',
          linkedAccounts = [Wallet ''0xDA7E'' (Some ''privy'') (Some ''embedded'')]\<rparr>,
      reg_address = ''0xda7e'', reg_existingCode = ex_code_unused\<rparr>"

definition ex_reg_frank :: Registration where
  "ex_reg_frank =
     \<lparr>reg_privyUser =
        \<lparr>privy_id = ''did:privy:frank'',
          linkedAccounts = [Wallet ''0xF4A2'' (Some ''privy'') (Some ''embedded'')]\<rparr>,
      reg_address = ''0xf4a2'', reg_existingCode = ex_code_unused\<rparr>"

definition ex_frank :: User where
  "ex_frank =
     \<lparr>user_id = 5, privyUserId = ''did:privy:frank'', wallet = ''0xf4a2'', socialWallet = None,
      user_isActive = True, invitedById = Some 1\<rparr>"

definition ex_state_after_dave :: State where
  "ex_state_after_dave =
     ex_state\<lparr>users := users ex_state @ [ex_dave],
       inviteCodes :=
         [\<lparr>code_id = 1, code = ''ABC123'', code_isActive = True, used = 1, maxUses = 1\<rparr>,
          \<lparr>code_id = 2, code = ''FULL'', code_isActive = True, used = 3, maxUses = 3\<rparr>,
          \<lparr>code_id = 3, code = ''RETIRED'', code_isActive = False, used = 2, maxUses = 2\<rparr>]\<rparr>"

definition ex_state_after_both :: State where
  "ex_state_after_both =
     ex_state_after_dave\<lparr>users := users ex_state @ [ex_dave, ex_frank]\<rparr>"

section \<open>Properties\<close>

subsection \<open>Auxiliary facts\<close>

text \<open>Lists: lookups by a key, and updates of the row a key selects.\<close>

lemma find_SomeD: "find P xs = Some x \<Longrightarrow> x \<in> set xs \<and> P x"
  by (induction xs) (auto split: if_splits)

lemma find_None_list_ex: "find P xs = None \<longleftrightarrow> \<not> list_ex P xs"
  by (auto simp: find_None_iff list_ex_iff)

lemma find_Some_list_ex: "find P xs = Some x \<Longrightarrow> list_ex P xs"
  by (auto simp: list_ex_iff dest: find_SomeD)

lemma find_snoc_None: "find P xs = None \<Longrightarrow> P y \<Longrightarrow> find P (xs @ [y]) = Some y"
  by (induction xs) (auto split: if_splits)

lemma find_distinct_key:
  "distinct (map f xs) \<Longrightarrow> x \<in> set xs \<Longrightarrow> find (\<lambda>y. f y = f x) xs = Some x"
  by (induction xs) (auto simp: image_iff)

lemma find_map_preserved:
  "find P xs = Some x \<Longrightarrow> (\<And>y. P (g y) = P y) \<Longrightarrow> find P (map g xs) = Some (g x)"
  by (induction xs) (auto split: if_splits)

lemma map_update_distinct_key:
  assumes "distinct (map f xs)" and "x \<in> set xs"
  shows "map (\<lambda>v. if f v = f x then h v else v) xs = map (\<lambda>v. if v = x then h x else v) xs"
proof (rule map_cong[OF refl])
  fix v assume "v \<in> set xs"
  with assms have "f v = f x \<longleftrightarrow> v = x"
    by (auto simp: distinct_map inj_on_def)
  then show "(if f v = f x then h v else v) = (if v = x then h x else v)" by auto
qed


text \<open>The store and the service functions.\<close>

lemma social_wallets_set:
  "set (social_wallets us) = {w. \<exists>u \<in> set us. socialWallet u = Some w}"
  by (auto simp: social_wallets_def split: option.splits)

lemma createUser_tx:
  "transaction
     (\<lambda>tx. andThen (user_create tx p i w a)
        (\<lambda>newUser tx. andThen (inviteCode_update_used tx i n) (\<lambda>updated tx. (Data newUser, tx)))) s =
   (if list_ex (\<lambda>u. privyUserId u = p \<or> wallet u = w) (users s) then (Throws UniqueConstraintFailed, s)
    else if inviteCode_findUnique_id s i = None then (Throws RecordNotFound, s)
    else (Data \<lparr>user_id = next_user_id s, privyUserId = p, wallet = w,
                         socialWallet = None, user_isActive = a,
                         invitedById = Some i\<rparr>,
          s\<lparr>users := users s @ [\<lparr>user_id = next_user_id s, privyUserId = p, wallet = w,
                         socialWallet = None, user_isActive = a,
                         invitedById = Some i\<rparr>],
            inviteCodes := map (\<lambda>r. if code_id r = i then r\<lparr>used := n\<rparr> else r) (inviteCodes s)\<rparr>))"
  by (auto simp: transaction_def andThen_def user_create_def inviteCode_update_used_def Let_def
      inviteCode_findUnique_id_def split: option.splits)

lemma findUnique_code_id:
  "inviteCode_findUnique_code s c = Some r \<Longrightarrow> inviteCode_findUnique_id s (code_id r) \<noteq> None"
  unfolding inviteCode_findUnique_code_def inviteCode_findUnique_id_def find_None_iff
  by (blast dest: find_SomeD)

lemma next_user_id_fresh_aux: "\<forall>x \<in> set xs. x \<le> fold max xs (m::int)" "m \<le> fold max xs m"
proof (induction xs arbitrary: m)
  case Nil
  { case 1 show ?case by simp }
  { case 2 show ?case by simp }
next
  case (Cons a xs)
  { case 1 show ?case using Cons.IH(1)[of "max a m"] Cons.IH(2)[of "max a m"] by auto }
  { case 2 show ?case using Cons.IH(2)[of "max a m"] by auto }
qed

lemma next_user_id_fresh: "u \<in> set (users s) \<Longrightarrow> user_id u < next_user_id s"
  using next_user_id_fresh_aux(1)[of "map user_id (users s)" 0]
  by (auto simp: next_user_id_def)

text \<open>What \<open>createUser\<close> does, one validation after the other, with the transaction evaluated.\<close>

lemma createUser_unfold:
  "createUser getUser p ic s =
     (case getUser p of
        None \<Rightarrow> (Error UNAUTHORIZED, s)
      | Some pu \<Rightarrow>
          (case user_findUnique_privyUserId s p of
             Some existingUser \<Rightarrow> (Error USER_ALREADY_EXISTS, s)
           | None \<Rightarrow>
               (case find isEmbeddedWallet (linkedAccounts pu) of
                  None \<Rightarrow> (Error WALLET_MISSING, s)
                | Some ew \<Rightarrow>
                    (case inviteCode_findUnique_code s (trim ic) of
                       None \<Rightarrow> (Error INVALID_INVITE_CODE, s)
                     | Some c \<Rightarrow>
                         if \<not> code_isActive c then (Error INVALID_INVITE_CODE, s)
                         else if maxUses c \<le> used c then (Error CODE_ALREADY_USED, s)
                         else if list_ex (\<lambda>u. privyUserId u = privy_id pu \<or>
                                   wallet u = toLowerCase (address ew)) (users s)
                         then (Throws UniqueConstraintFailed, s)
                         else
                           (Data \<lparr>user_id = next_user_id s, privyUserId = privy_id pu,
                                   wallet = toLowerCase (address ew), socialWallet = None,
                                   user_isActive = True, invitedById = Some (code_id c)\<rparr>,
                            s\<lparr>users := users s @
                                 [\<lparr>user_id = next_user_id s, privyUserId = privy_id pu,
                                   wallet = toLowerCase (address ew), socialWallet = None,
                                   user_isActive = True, invitedById = Some (code_id c)\<rparr>],
                              inviteCodes :=
                                map (\<lambda>r. if code_id r = code_id c then r\<lparr>used := used c + 1\<rparr> else r)
                                  (inviteCodes s)\<rparr>)))))"
  by (auto simp: createUser_def Let_def createUser_tx findUnique_code_id split: option.splits)

lemma update_by_code:
  assumes "distinct (map code_id cs)" and "distinct (map code cs)"
    and "find (\<lambda>r. code r = k) cs = Some c"
  shows "map (\<lambda>r. if code_id r = code_id c then r\<lparr>used := used c + n\<rparr> else r) cs =
         map (\<lambda>r. if code r = k then r\<lparr>used := used r + n\<rparr> else r) cs"
proof (rule map_cong[OF refl])
  fix r assume r: "r \<in> set cs"
  from assms(3) have c: "c \<in> set cs" "code c = k"
    by (auto dest: find_SomeD)
  have "code_id r = code_id c \<longleftrightarrow> r = c"
    using assms(1) r c(1) by (auto simp: distinct_map inj_on_def)
  moreover have "code r = k \<longleftrightarrow> r = c"
    using assms(2) r c by (auto simp: distinct_map inj_on_def)
  ultimately show "(if code_id r = code_id c then r\<lparr>used := used c + n\<rparr> else r) =
        (if code r = k then r\<lparr>used := used r + n\<rparr> else r)"
    by auto
qed

lemma find_after_update:
  assumes "find (\<lambda>r. code r = k) cs = Some c"
  shows "find (\<lambda>r. code r = k) (map (\<lambda>r. if code_id r = code_id c then r\<lparr>used := n\<rparr> else r) cs) =
         Some (c\<lparr>used := n\<rparr>)"
  using assms by (induction cs) (auto split: if_splits)

lemma social_wallets_append: "social_wallets (us @ vs) = social_wallets us @ social_wallets vs"
  by (simp add: social_wallets_def)

text \<open>A registration keeps the unique constraints and the cap invariant.\<close>

lemma createUser_store_ok:
  assumes "store_ok s"
  shows "store_ok (snd (createUser getUser p ic s))"
proof -
  have ids: "code_id \<circ> (\<lambda>r. if code_id r = i then r\<lparr>used := n\<rparr> else r) = code_id"
    and codes: "code \<circ> (\<lambda>r. if code_id r = i then r\<lparr>used := n\<rparr> else r) = code"
    for i n
    by (auto simp: fun_eq_iff)
  have fresh: "next_user_id s \<notin> user_id ` set (users s)"
    using next_user_id_fresh[of _ s] by force
  show ?thesis
    using assms fresh
    by (auto simp: createUser_unfold store_ok_def ids codes social_wallets_append
        social_wallets_def list_ex_iff split: option.splits)
qed

lemma createUser_within_cap:
  assumes "store_ok s" and "codes_within_cap s"
  shows "codes_within_cap (snd (createUser getUser p ic s))"
proof -
  have upd: "list_all (\<lambda>c. used c \<le> maxUses c)
      (map (\<lambda>r. if code_id r = code_id c then r\<lparr>used := used c + 1\<rparr> else r) (inviteCodes s))"
    if c: "inviteCode_findUnique_code s k = Some c" and lt: "used c < maxUses c" for k c
  proof -
    from c have cin: "c \<in> set (inviteCodes s)"
      by (auto simp: inviteCode_findUnique_code_def dest: find_SomeD)
    have same: "r = c" if "r \<in> set (inviteCodes s)" "code_id r = code_id c" for r
      using that cin assms(1) by (auto simp: store_ok_def distinct_map inj_on_def)
    have "used c + 1 \<le> maxUses r" if "r \<in> set (inviteCodes s)" "code_id r = code_id c" for r
      using same[OF that] lt by simp
    with assms(2) show ?thesis
      by (auto simp: codes_within_cap_def list_all_iff)
  qed
  show ?thesis
    using assms(2) upd
    by (auto simp: createUser_unfold codes_within_cap_def split: option.splits)
qed

text \<open>The transaction of \<open>linkNewWallet\<close> and the function itself, with the store calls evaluated.\<close>

lemma linkNewWallet_transaction_unfold:
  "linkNewWallet_transaction s u c =
     (case signingChallenge_findFirst_userId s (user_id u) of
        None \<Rightarrow> (Throws RecordNotFound, s)
      | Some d \<Rightarrow>
          (case user_findUnique_id s (user_id u) of
             None \<Rightarrow> (Throws RecordNotFound, s)
           | Some u0 \<Rightarrow>
               if list_ex (\<lambda>v. user_id v \<noteq> user_id u \<and>
                       socialWallet v = Some (toLowerCase (publicKey c))) (users s)
               then (Throws UniqueConstraintFailed, s)
               else
                 (Data (u0\<lparr>socialWallet := Some (toLowerCase (publicKey c))\<rparr>),
                  s\<lparr>signingChallenges :=
                      filter (\<lambda>d. userId d \<noteq> user_id u) (signingChallenges s),
                    users :=
                      map (\<lambda>v. if user_id v = user_id u
                               then v\<lparr>socialWallet := Some (toLowerCase (publicKey c))\<rparr> else v)
                        (users s)\<rparr>)))"
  by (auto simp: linkNewWallet_transaction_def transaction_def andThen_def
      signingChallenge_delete_def user_update_socialWallet_def user_findUnique_id_def
      split: option.splits)

lemma linkNewWallet_unfold:
  "linkNewWallet verify upd rec now p sg s =
     (case user_findUnique_privyUserId s p of
        None \<Rightarrow> (Throws RecordNotFound, s)
      | Some u \<Rightarrow>
          (case signingChallenge_findFirst_userId s (user_id u) of
             None \<Rightarrow> (Throws RecordNotFound, s)
           | Some c \<Rightarrow>
               if challenge_expired now c then (Error CHALLENGE_EXPIRED, s)
               else if \<not> verify (publicKey c) (message c) sg then (Error INVALID_SIGNATURE, s)
               else
                 (case linkNewWallet_transaction s u c of
                    (Data user, s1) \<Rightarrow>
                      (case try_side_effects upd rec (user_id user) (toLowerCase (publicKey c)) of
                         Some err \<Rightarrow>
                           (Data user,
                            console_error ''Error while updating social profiles: '' err s1)
                       | None \<Rightarrow> (Data user, s1))
                  | (Error e, s1) \<Rightarrow> (Error e, s1)
                  | (Throws e, s1) \<Rightarrow> (Throws e, s1))))"
  by (simp add: linkNewWallet_def andThen_def user_findUniqueOrThrow_privyUserId_def
      signingChallenge_findFirstOrThrow_userId_def split: option.splits)

text \<open>The freshness check in milliseconds: sixteen full minutes, in either direction.\<close>

lemma challenge_expired_iff:
  "challenge_expired now c \<longleftrightarrow> \<bar>now - updatedAt c\<bar> \<ge> 960000"
  unfolding challenge_expired_def differenceInMinutes_def Let_def
  by (cases "0 \<le> now - updatedAt c") (simp_all, linarith+)

text \<open>\<open>generateChallenge\<close> with the lookup evaluated.\<close>

lemma generateChallenge_unfold:
  "generateChallenge now t p pk s =
     (case user_findUnique_privyUserId s p of
        None \<Rightarrow> (Throws RecordNotFound, s)
      | Some u \<Rightarrow> signingChallenge_upsert s (user_id u) (challenge_message now pk) pk t)"
  by (simp add: generateChallenge_def andThen_def user_findUniqueOrThrow_privyUserId_def
      split: option.splits)


text \<open>The row an upsert returns is the row a lookup finds afterwards.\<close>

lemma upsert_stored:
  "signingChallenge_upsert s uid msg pk t = (Data ch, s') \<Longrightarrow>
     ch = \<lparr>userId = uid, publicKey = pk, message = msg, updatedAt = t\<rparr> \<and>
     signingChallenge_findFirst_userId s' uid = Some ch"
proof -
  assume run: "signingChallenge_upsert s uid msg pk t = (Data ch, s')"
  let ?g = "\<lambda>d. if userId d = uid then d\<lparr>message := msg, publicKey := pk, updatedAt := t\<rparr> else d"
  have row: "d\<lparr>message := msg, publicKey := pk, updatedAt := t\<rparr> =
      \<lparr>userId = uid, publicKey = pk, message = msg, updatedAt = t\<rparr>" if "userId d = uid"
    for d :: SigningChallenge
    using that by (cases d) simp
  show ?thesis
  proof (cases "signingChallenge_findFirst_userId s uid")
    case None
    then have "find (\<lambda>d. userId d = uid) (signingChallenges s @ [ch]) = Some ch"
      if "userId ch = uid"
      using that by (simp add: signingChallenge_findFirst_userId_def find_snoc_None)
    with None run show ?thesis
      by (auto simp: signingChallenge_upsert_def Let_def signingChallenge_findFirst_userId_def)
  next
    case (Some c)
    then have c: "find (\<lambda>d. userId d = uid) (signingChallenges s) = Some c" "userId c = uid"
      by (auto simp: signingChallenge_findFirst_userId_def dest: find_SomeD)
    have "find (\<lambda>d. userId d = uid) (map ?g (signingChallenges s)) = Some (?g c)"
      by (rule find_map_preserved[OF c(1)]) auto
    with Some run c(2) show ?thesis
      by (auto simp: signingChallenge_upsert_def signingChallenge_findFirst_userId_def row)
  qed
qed

text \<open>\<open>createUser\<close> is its checks followed by its transaction.\<close>

lemma createUser_split:
  "createUser getUser p ic s =
     (case createUser_validate getUser p ic s of
        Inl e \<Rightarrow> (Error e, s)
      | Inr reg \<Rightarrow> createUser_commit reg s)"
  by (simp add: createUser_def createUser_validate_def createUser_commit_def Let_def
      split: option.splits)

text \<open>
  The counter a committed registration leaves depends on the value its checks read,
  not on the counter at the time of the transaction.
\<close>

lemma createUser_commit_counter:
  assumes "createUser_commit reg s = (Data u, s')"
    and "r \<in> set (inviteCodes s')" and "code_id r = code_id (reg_existingCode reg)"
  shows "used r = used (reg_existingCode reg) + 1"
  using assms
  by (auto simp: createUser_commit_def createUser_tx split: if_splits)

subsection \<open>createUser\<close>

text \<open>
  A call that runs on its own. When it returns \<open>Data newUser\<close> it has appended exactly
  the row \<open>newUser\<close> to the user table, with a fresh identity, the provider's identity
  reference, the lower-cased address of the embedded wallet and a reference to the
  invite code found under the trimmed code string, and it has raised the \<open>used\<close>
  counter of that invite code by exactly one (on a store that satisfies its unique
  constraints, of no other row). When it returns an error or throws, the state is as
  it was.
\<close>

lemma createUser_run_alone:
  assumes run: "createUser getUser p ic s = (r, s')"
  shows "case r of
      Data newUser \<Rightarrow>
        (\<exists>pu ew c.
           getUser p = Some pu \<and>
           find isEmbeddedWallet (linkedAccounts pu) = Some ew \<and>
           inviteCode_findUnique_code s (trim ic) = Some c \<and>
           users s' = users s @ [newUser] \<and>
           user_id newUser \<notin> user_id ` set (users s) \<and>
           privyUserId newUser = privy_id pu \<and>
           wallet newUser = toLowerCase (address ew) \<and>
           invitedById newUser = Some (code_id c) \<and>
           inviteCode_findUnique_code s' (trim ic) = Some (c\<lparr>used := used c + 1\<rparr>) \<and>
           (store_ok s \<longrightarrow>
              inviteCodes s' =
                map (\<lambda>r. if code r = trim ic then r\<lparr>used := used r + 1\<rparr> else r)
                  (inviteCodes s)) \<and>
           signingChallenges s' = signingChallenges s \<and>
           console s' = console s)
    | Error e \<Rightarrow> s' = s
    | Throws e \<Rightarrow> s' = s"
proof (cases r)
  case (Data newUser)
  from run[unfolded Data createUser_unfold]
  obtain pu ew c where
    pu: "getUser p = Some pu" and
    ew: "find isEmbeddedWallet (linkedAccounts pu) = Some ew" and
    c: "inviteCode_findUnique_code s (trim ic) = Some c" and
    nu: "newUser = \<lparr>user_id = next_user_id s, privyUserId = privy_id pu,
                                   wallet = toLowerCase (address ew), socialWallet = None,
                                   user_isActive = True, invitedById = Some (code_id c)\<rparr>" and
    s': "s' = s\<lparr>users := users s @ [newUser],
                inviteCodes := map (\<lambda>r. if code_id r = code_id c then r\<lparr>used := used c + 1\<rparr> else r)
                                  (inviteCodes s)\<rparr>"
    by (auto split: option.splits if_splits)
  have fresh: "user_id newUser \<notin> user_id ` set (users s)"
  proof
    assume "user_id newUser \<in> user_id ` set (users s)"
    then obtain u where "u \<in> set (users s)" "user_id u = user_id newUser" by auto
    with next_user_id_fresh[of u s] show False by (simp add: nu)
  qed
  have c': "find (\<lambda>r. code r = trim ic) (inviteCodes s) = Some c"
    using c by (simp add: inviteCode_findUnique_code_def)
  have tab: "inviteCodes s' =
             map (\<lambda>r. if code r = trim ic then r\<lparr>used := used r + 1\<rparr> else r) (inviteCodes s)"
    if "store_ok s"
    using update_by_code[OF _ _ c', of 1] that by (simp add: s' store_ok_def)
  have look: "inviteCode_findUnique_code s' (trim ic) = Some (c\<lparr>used := used c + 1\<rparr>)"
    using find_after_update[OF c'] by (simp add: s' inviteCode_findUnique_code_def)
  show ?thesis
    using pu ew c fresh tab look by (simp add: Data) (simp add: s' nu)
next
  case (Error e)
  with run show ?thesis
    by (auto simp: createUser_unfold split: option.splits if_splits)
next
  case (Throws e)
  with run show ?thesis
    by (auto simp: createUser_unfold split: option.splits if_splits)
qed

text \<open>
  Claim C1 asks that every successful registration raises the \<open>used\<close> counter of its
  invite code by exactly one and creates the user row, never one without the other.
  The code does not do this when two registrations overlap. It reads the invite code
  before the transaction (line 110) and, inside the transaction, writes the value it
  read plus one (line 132), so the transaction covers the two writes but not the read
  the written value comes from. Dave's and Frank's calls with the code \<open>ABC123\<close> (cap 1,
  unused) both pass their checks on the same store; then Dave's transaction runs, then
  Frank's. Both return their new row and both rows reference the code, but the counter
  is 1 after Dave's transaction and still 1 after Frank's: Frank's row is created
  without an increase of the counter, and a code with cap 1 has admitted two users.
  Run one after the other, Dave's call gives the same result and Frank's is refused
  with \<open>CODE_ALREADY_USED\<close>.
\<close>

theorem createUser_overlapping_calls:
  "createUser_validate ex_getUser_newcomers ''did:privy:dave'' ''ABC123'' ex_state =
     Inr ex_reg_dave \<and>
   createUser_validate ex_getUser_newcomers ''did:privy:frank'' ''ABC123'' ex_state =
     Inr ex_reg_frank \<and>
   createUser_commit ex_reg_dave ex_state = (Data ex_dave, ex_state_after_dave) \<and>
   createUser_commit ex_reg_frank ex_state_after_dave = (Data ex_frank, ex_state_after_both) \<and>
   inviteCode_findUnique_code ex_state ''ABC123'' = Some ex_code_unused \<and>
   inviteCode_findUnique_code ex_state_after_dave ''ABC123'' = Some (ex_code_unused\<lparr>used := 1\<rparr>) \<and>
   inviteCode_findUnique_code ex_state_after_both ''ABC123'' = Some (ex_code_unused\<lparr>used := 1\<rparr>) \<and>
   inviteCodes ex_state_after_both = inviteCodes ex_state_after_dave \<and>
   users ex_state_after_both = users ex_state @ [ex_dave, ex_frank] \<and>
   invitedById ex_dave = Some (code_id ex_code_unused) \<and>
   invitedById ex_frank = Some (code_id ex_code_unused) \<and>
   maxUses ex_code_unused = 1 \<and>
   createUser ex_getUser_newcomers ''did:privy:dave'' ''ABC123'' ex_state =
     (Data ex_dave, ex_state_after_dave) \<and>
   createUser ex_getUser_newcomers ''did:privy:frank'' ''ABC123'' ex_state_after_dave =
     (Error CODE_ALREADY_USED, ex_state_after_dave)"
  by code_simp

text \<open>
  Claim C2. \<open>createUser\<close> validates in a fixed order and returns at the first check
  that fails: an identity the provider does not resolve gives \<open>UNAUTHORIZED\<close>, whatever
  the store and the invite code are; otherwise an existing user for the identity gives
  \<open>USER_ALREADY_EXISTS\<close>; otherwise the absence of a linked account that is a wallet
  with client type \<open>privy\<close> and connector type \<open>embedded\<close> gives \<open>WALLET_MISSING\<close>;
  otherwise a trimmed invite code that is absent or inactive gives
  \<open>INVALID_INVITE_CODE\<close>; otherwise \<open>used \<ge> maxUses\<close> gives \<open>CODE_ALREADY_USED\<close>;
  otherwise no error is returned. Every call that returns an error leaves the state
  as it was.
\<close>

theorem createUser_validation_order:
  "(getUser p = None \<longrightarrow> createUser getUser p ic s = (Error UNAUTHORIZED, s)) \<and>
   (getUser p = Some pu \<and> user_findUnique_privyUserId s p = Some existing \<longrightarrow>
      createUser getUser p ic s = (Error USER_ALREADY_EXISTS, s)) \<and>
   (getUser p = Some pu \<and> user_findUnique_privyUserId s p = None \<and>
    \<not> list_ex isEmbeddedWallet (linkedAccounts pu) \<longrightarrow>
      createUser getUser p ic s = (Error WALLET_MISSING, s)) \<and>
   (getUser p = Some pu \<and> user_findUnique_privyUserId s p = None \<and>
    list_ex isEmbeddedWallet (linkedAccounts pu) \<and>
    inviteCode_findUnique_code s (trim ic) = None \<longrightarrow>
      createUser getUser p ic s = (Error INVALID_INVITE_CODE, s)) \<and>
   (getUser p = Some pu \<and> user_findUnique_privyUserId s p = None \<and>
    list_ex isEmbeddedWallet (linkedAccounts pu) \<and>
    inviteCode_findUnique_code s (trim ic) = Some c \<and> \<not> code_isActive c \<longrightarrow>
      createUser getUser p ic s = (Error INVALID_INVITE_CODE, s)) \<and>
   (getUser p = Some pu \<and> user_findUnique_privyUserId s p = None \<and>
    list_ex isEmbeddedWallet (linkedAccounts pu) \<and>
    inviteCode_findUnique_code s (trim ic) = Some c \<and> code_isActive c \<and>
    maxUses c \<le> used c \<longrightarrow>
      createUser getUser p ic s = (Error CODE_ALREADY_USED, s)) \<and>
   (getUser p = Some pu \<and> user_findUnique_privyUserId s p = None \<and>
    list_ex isEmbeddedWallet (linkedAccounts pu) \<and>
    inviteCode_findUnique_code s (trim ic) = Some c \<and> code_isActive c \<and>
    used c < maxUses c \<longrightarrow>
      fst (createUser getUser p ic s) \<noteq> Error e) \<and>
   (createUser getUser p ic s = (Error e, s') \<longrightarrow> s' = s)"
  by (auto simp: createUser_unfold find_None_list_ex split: option.splits if_splits
      dest: find_Some_list_ex)

text \<open>
  One call per check on the example store, and calls in which two checks would fail:
  the earlier one decides.
\<close>

theorem createUser_validation_order_witness:
  "createUser ex_getUser ''did:privy:ghost'' ''ABC123'' ex_state = (Error UNAUTHORIZED, ex_state) \<and>
   createUser ex_getUser ''did:privy:alice'' ''ABC123'' ex_state = (Error USER_ALREADY_EXISTS, ex_state) \<and>
   createUser ex_getUser ''did:privy:erin'' ''ABC123'' ex_state = (Error WALLET_MISSING, ex_state) \<and>
   createUser ex_getUser ''did:privy:dave'' ''NOPE'' ex_state = (Error INVALID_INVITE_CODE, ex_state) \<and>
   createUser ex_getUser ''did:privy:dave'' ''RETIRED'' ex_state = (Error INVALID_INVITE_CODE, ex_state) \<and>
   createUser ex_getUser ''did:privy:dave'' ''FULL'' ex_state = (Error CODE_ALREADY_USED, ex_state) \<and>
   createUser ex_getUser ''did:privy:ghost'' ''FULL'' ex_state = (Error UNAUTHORIZED, ex_state) \<and>
   createUser ex_getUser ''did:privy:alice'' ''RETIRED'' ex_state = (Error USER_ALREADY_EXISTS, ex_state) \<and>
   createUser ex_getUser ''did:privy:erin'' ''NOPE'' ex_state = (Error WALLET_MISSING, ex_state)"
proof -
  have tr: "trim ''ABC123'' = ''ABC123''" "trim ''NOPE'' = ''NOPE''" "trim ''RETIRED'' = ''RETIRED''"
    "trim ''FULL'' = ''FULL''"
    by code_simp+
  have ghost: "ex_getUser ''did:privy:ghost'' = None"
    by (simp add: ex_getUser_def)
  have alice: "ex_getUser ''did:privy:alice'' = Some \<lparr>privy_id = ''did:privy:alice'',
              linkedAccounts = [Wallet ''0xA11CE'' (Some ''privy'') (Some ''embedded'')]\<rparr>"
    "user_findUnique_privyUserId ex_state ''did:privy:alice'' =
       Some (ex_user 1 ''did:privy:alice'' ''0xa11ce'' (Some ''0xaaa''))"
    by (simp_all add: ex_getUser_def user_findUnique_privyUserId_def ex_state_def ex_user_def)
  have erin: "ex_getUser ''did:privy:erin'' = Some \<lparr>privy_id = ''did:privy:erin'',
              linkedAccounts = [NonWallet ''phone'', Wallet ''0xE417'' (Some ''metamask'') None]\<rparr>"
    "user_findUnique_privyUserId ex_state ''did:privy:erin'' = None"
    by (simp_all add: ex_getUser_def user_findUnique_privyUserId_def ex_state_def ex_user_def)
  have dave: "ex_getUser ''did:privy:dave'' = Some \<lparr>privy_id = ''did:privy:dave'',
              linkedAccounts =
                [NonWallet ''email'',
                 Wallet ''0xFEED'' (Some ''metamask'') (Some ''injected''),
                 Wallet ''0xDA7E'' (Some ''privy'') (Some ''embedded'')]\<rparr>"
    "user_findUnique_privyUserId ex_state ''did:privy:dave'' = None"
    by (simp_all add: ex_getUser_def user_findUnique_privyUserId_def ex_state_def ex_user_def)
  have codes: "inviteCode_findUnique_code ex_state ''NOPE'' = None"
    "inviteCode_findUnique_code ex_state ''RETIRED'' =
       Some \<lparr>code_id = 3, code = ''RETIRED'', code_isActive = False, used = 2, maxUses = 2\<rparr>"
    "inviteCode_findUnique_code ex_state ''FULL'' =
       Some \<lparr>code_id = 2, code = ''FULL'', code_isActive = True, used = 3, maxUses = 3\<rparr>"
    by (simp_all add: inviteCode_findUnique_code_def ex_state_def)
  let ?alice = "\<lparr>privy_id = ''did:privy:alice'',
              linkedAccounts = [Wallet ''0xA11CE'' (Some ''privy'') (Some ''embedded'')]\<rparr>"
  let ?erin = "\<lparr>privy_id = ''did:privy:erin'',
              linkedAccounts = [NonWallet ''phone'', Wallet ''0xE417'' (Some ''metamask'') None]\<rparr>"
  let ?dave = "\<lparr>privy_id = ''did:privy:dave'',
              linkedAccounts =
                [NonWallet ''email'',
                 Wallet ''0xFEED'' (Some ''metamask'') (Some ''injected''),
                 Wallet ''0xDA7E'' (Some ''privy'') (Some ''embedded'')]\<rparr>"
  let ?retired = "\<lparr>code_id = 3, code = ''RETIRED'', code_isActive = False, used = 2, maxUses = 2\<rparr>"
  let ?full = "\<lparr>code_id = 2, code = ''FULL'', code_isActive = True, used = 3, maxUses = 3\<rparr>"
  have 1: "createUser ex_getUser ''did:privy:ghost'' ''ABC123'' ex_state = (Error UNAUTHORIZED, ex_state)"
    "createUser ex_getUser ''did:privy:ghost'' ''FULL'' ex_state = (Error UNAUTHORIZED, ex_state)"
    using createUser_validation_order [where getUser = ex_getUser and p = "''did:privy:ghost''"
        and s = ex_state] ghost
    by blast+
  have 2: "createUser ex_getUser ''did:privy:alice'' ''ABC123'' ex_state = (Error USER_ALREADY_EXISTS, ex_state)"
    "createUser ex_getUser ''did:privy:alice'' ''RETIRED'' ex_state = (Error USER_ALREADY_EXISTS, ex_state)"
    using createUser_validation_order [where getUser = ex_getUser and p = "''did:privy:alice''"
        and s = ex_state and pu = ?alice] alice
    by blast+
  have 3: "createUser ex_getUser ''did:privy:erin'' ''ABC123'' ex_state = (Error WALLET_MISSING, ex_state)"
    "createUser ex_getUser ''did:privy:erin'' ''NOPE'' ex_state = (Error WALLET_MISSING, ex_state)"
    using createUser_validation_order [where getUser = ex_getUser and p = "''did:privy:erin''"
        and s = ex_state and pu = ?erin] erin
    by simp_all
  have 4: "createUser ex_getUser ''did:privy:dave'' ''NOPE'' ex_state = (Error INVALID_INVITE_CODE, ex_state)"
    using createUser_validation_order [where getUser = ex_getUser and p = "''did:privy:dave''"
        and s = ex_state and pu = ?dave and ic = "''NOPE''"] dave codes tr
    by simp
  have 5: "createUser ex_getUser ''did:privy:dave'' ''RETIRED'' ex_state = (Error INVALID_INVITE_CODE, ex_state)"
    using createUser_validation_order [where getUser = ex_getUser and p = "''did:privy:dave''"
        and s = ex_state and pu = ?dave and ic = "''RETIRED''" and c = ?retired] dave codes tr
    by simp
  have 6: "createUser ex_getUser ''did:privy:dave'' ''FULL'' ex_state = (Error CODE_ALREADY_USED, ex_state)"
    using createUser_validation_order [where getUser = ex_getUser and p = "''did:privy:dave''"
        and s = ex_state and pu = ?dave and ic = "''FULL''" and c = ?full] dave codes tr
    by simp
  from 1 2 3 4 5 6 show ?thesis by simp
qed

text \<open>
  Claim C7, as stated, fails: the cap is the last of the validations, so a registration
  with a code whose counter equals its cap returns the error of an earlier check when one
  fails. Here the exhausted code \<open>RETIRED\<close> is inactive and the attempt returns
  \<open>INVALID_INVITE_CODE\<close>.
\<close>

theorem createUser_exhausted_code_counterexample:
  "inviteCode_findUnique_code ex_state (trim ''RETIRED'') =
     Some \<lparr>code_id = 3, code = ''RETIRED'', code_isActive = False, used = 2, maxUses = 2\<rparr> \<and>
   createUser ex_getUser ''did:privy:dave'' ''RETIRED'' ex_state =
     (Error INVALID_INVITE_CODE, ex_state) \<and>
   createUser ex_getUser ''did:privy:dave'' ''RETIRED'' ex_state \<noteq>
     (Error CODE_ALREADY_USED, ex_state)"
  by code_simp

text \<open>
  Claim C7, amended. For an invite code, found under the trimmed code string, whose
  counter equals its cap: every registration attempt with it returns an error and
  leaves the state, hence the counter, unchanged; and the error is \<open>CODE_ALREADY_USED\<close>
  when the earlier validations pass (the identity resolves, no user exists for it, an
  embedded wallet is linked, the code is active). On a store that satisfies its unique
  constraints, every registration preserves \<open>used \<le> maxUses\<close> for all invite codes.
\<close>

theorem createUser_exhausted_code:
  "(inviteCode_findUnique_code s (trim ic) = Some c \<and> used c = maxUses c \<longrightarrow>
      (\<exists>e. createUser getUser p ic s = (Error e, s)) \<and>
      (getUser p = Some pu \<and> user_findUnique_privyUserId s p = None \<and>
       list_ex isEmbeddedWallet (linkedAccounts pu) \<and> code_isActive c \<longrightarrow>
         createUser getUser p ic s = (Error CODE_ALREADY_USED, s))) \<and>
   (store_ok s \<and> codes_within_cap s \<longrightarrow>
      store_ok (snd (createUser getUser p ic s)) \<and>
      codes_within_cap (snd (createUser getUser p ic s)))"
proof -
  have "\<exists>e. createUser getUser p ic s = (Error e, s)"
    if "inviteCode_findUnique_code s (trim ic) = Some c" "used c = maxUses c"
    using that by (auto simp: createUser_unfold split: option.splits)
  moreover have "createUser getUser p ic s = (Error CODE_ALREADY_USED, s)"
    if "inviteCode_findUnique_code s (trim ic) = Some c" "used c = maxUses c"
      "getUser p = Some pu" "user_findUnique_privyUserId s p = None"
      "list_ex isEmbeddedWallet (linkedAccounts pu)" "code_isActive c"
    using that by (auto simp: createUser_unfold find_None_list_ex split: option.splits)
  ultimately show ?thesis
    using createUser_store_ok createUser_within_cap by blast
qed

text \<open>
  Dave's attempt with the exhausted, active code \<open>FULL\<close> returns \<open>CODE_ALREADY_USED\<close>;
  his registration with \<open>ABC123\<close> keeps the invariant.
\<close>

theorem createUser_exhausted_code_witness:
  "inviteCode_findUnique_code ex_state (trim ''FULL'') =
     Some \<lparr>code_id = 2, code = ''FULL'', code_isActive = True, used = 3, maxUses = 3\<rparr> \<and>
   createUser ex_getUser ''did:privy:dave'' ''FULL'' ex_state = (Error CODE_ALREADY_USED, ex_state) \<and>
   store_ok ex_state \<and> codes_within_cap ex_state \<and>
   codes_within_cap (snd (createUser ex_getUser ''did:privy:dave'' ''ABC123'' ex_state))"
proof -
  let ?dave = "\<lparr>privy_id = ''did:privy:dave'',
              linkedAccounts =
                [NonWallet ''email'',
                 Wallet ''0xFEED'' (Some ''metamask'') (Some ''injected''),
                 Wallet ''0xDA7E'' (Some ''privy'') (Some ''embedded'')]\<rparr>"
  let ?full = "\<lparr>code_id = 2, code = ''FULL'', code_isActive = True, used = 3, maxUses = 3\<rparr>"
  have full: "inviteCode_findUnique_code ex_state (trim ''FULL'') = Some ?full"
    by code_simp
  have dave: "ex_getUser ''did:privy:dave'' = Some ?dave"
    "user_findUnique_privyUserId ex_state ''did:privy:dave'' = None"
    by (simp_all add: ex_getUser_def user_findUnique_privyUserId_def ex_state_def ex_user_def)
  have ok: "store_ok ex_state"
    by (simp add: store_ok_def ex_state_def ex_user_def social_wallets_def)
  have cap: "codes_within_cap ex_state"
    by (simp add: codes_within_cap_def ex_state_def)
  have "createUser ex_getUser ''did:privy:dave'' ''FULL'' ex_state = (Error CODE_ALREADY_USED, ex_state)"
    using createUser_exhausted_code [where s = ex_state and ic = "''FULL''" and c = ?full
        and getUser = ex_getUser and p = "''did:privy:dave''" and pu = ?dave] full dave
    by simp
  moreover have "codes_within_cap (snd (createUser ex_getUser ''did:privy:dave'' ''ABC123'' ex_state))"
    using createUser_exhausted_code [where s = ex_state and ic = "''ABC123''"
        and getUser = ex_getUser and p = "''did:privy:dave''"] ok cap
    by blast
  ultimately show ?thesis
    using full ok cap by simp
qed

subsection \<open>linkNewWallet\<close>

text \<open>
  Claim C3, as stated, fails: the freshness check compares whole minutes, rounded
  towards zero. Fifteen and a half minutes after the challenge was last updated, more
  than 15 minutes have elapsed, yet a valid signature links the wallet and deletes the
  challenge, and an invalid one is answered with \<open>INVALID_SIGNATURE\<close>.
\<close>

theorem linkNewWallet_expired_counterexample:
  "signingChallenge_findFirst_userId ex_state 2 =
     Some \<lparr>userId = 2, publicKey = ''0xAbC'', message = ''sign me'', updatedAt = 0\<rparr> \<and>
   (930000 :: int) - 0 > 15 * 60000 \<and>
   linkNewWallet ex_verifyMessage ex_profiles_ok ex_recommendations_ok 930000
     ''did:privy:bob'' ''signed:0xAbC:sign me'' ex_state =
     (Data (ex_bob\<lparr>socialWallet := Some ''0xabc''\<rparr>),
      ex_state\<lparr>users := [ex_user 1 ''did:privy:alice'' ''0xa11ce'' (Some ''0xaaa''),
                           ex_bob\<lparr>socialWallet := Some ''0xabc''\<rparr>,
                           ex_user 3 ''did:privy:carol'' ''0xca401'' (Some ''0xccc'')],
                signingChallenges := []\<rparr>) \<and>
   linkNewWallet ex_verifyMessage ex_profiles_ok ex_recommendations_ok 930000
     ''did:privy:bob'' ''forged'' ex_state = (Error INVALID_SIGNATURE, ex_state)"
  by code_simp

text \<open>
  Claim C3, amended. For a user who has a challenge: when at least 16 full minutes lie
  between now and the challenge's last-updated timestamp (in either direction), the
  call returns \<open>CHALLENGE_EXPIRED\<close> whatever the signature and the verifier are, the
  state is unchanged and the challenge row is still there; below 16 minutes the call
  does not return \<open>CHALLENGE_EXPIRED\<close>.
\<close>

theorem linkNewWallet_expired:
  assumes user: "user_findUnique_privyUserId s p = Some u"
    and chal: "signingChallenge_findFirst_userId s (user_id u) = Some c"
  shows "(\<bar>now - updatedAt c\<bar> \<ge> 16 * 60000 \<longrightarrow>
            linkNewWallet verify upd rec now p sg s = (Error CHALLENGE_EXPIRED, s) \<and>
            signingChallenge_findFirst_userId (snd (linkNewWallet verify upd rec now p sg s))
              (user_id u) = Some c) \<and>
         (\<bar>now - updatedAt c\<bar> < 16 * 60000 \<longrightarrow>
            fst (linkNewWallet verify upd rec now p sg s) \<noteq> Error CHALLENGE_EXPIRED)"
proof -
  have "linkNewWallet verify upd rec now p sg s = (Error CHALLENGE_EXPIRED, s)"
    if "\<bar>now - updatedAt c\<bar> \<ge> 16 * 60000"
    using that user chal by (simp add: linkNewWallet_unfold challenge_expired_iff)
  moreover have "fst (linkNewWallet verify upd rec now p sg s) \<noteq> Error CHALLENGE_EXPIRED"
    if "\<bar>now - updatedAt c\<bar> < 16 * 60000"
    using that user chal
    by (auto simp: linkNewWallet_unfold challenge_expired_iff linkNewWallet_transaction_unfold
        split: option.splits)
  ultimately show ?thesis using chal by auto
qed

text \<open>Sixteen minutes after the update, Bob's valid signature is refused and his challenge stays.\<close>

theorem linkNewWallet_expired_witness:
  "user_findUnique_privyUserId ex_state ''did:privy:bob'' = Some ex_bob \<and>
   signingChallenge_findFirst_userId ex_state (user_id ex_bob) =
     Some \<lparr>userId = 2, publicKey = ''0xAbC'', message = ''sign me'', updatedAt = 0\<rparr> \<and>
   ex_verifyMessage ''0xAbC'' ''sign me'' ''signed:0xAbC:sign me'' \<and>
   linkNewWallet ex_verifyMessage ex_profiles_ok ex_recommendations_ok 960000
     ''did:privy:bob'' ''signed:0xAbC:sign me'' ex_state = (Error CHALLENGE_EXPIRED, ex_state) \<and>
   signingChallenge_findFirst_userId
     (snd (linkNewWallet ex_verifyMessage ex_profiles_ok ex_recommendations_ok 960000
        ''did:privy:bob'' ''signed:0xAbC:sign me'' ex_state)) (user_id ex_bob) =
     Some \<lparr>userId = 2, publicKey = ''0xAbC'', message = ''sign me'', updatedAt = 0\<rparr>"
proof -
  let ?c = "\<lparr>userId = 2, publicKey = ''0xAbC'', message = ''sign me'', updatedAt = 0\<rparr>"
  have user: "user_findUnique_privyUserId ex_state ''did:privy:bob'' = Some ex_bob"
    by (simp add: user_findUnique_privyUserId_def ex_state_def ex_user_def ex_bob_def)
  have chal: "signingChallenge_findFirst_userId ex_state (user_id ex_bob) = Some ?c"
    by (simp add: signingChallenge_findFirst_userId_def ex_state_def ex_user_def ex_bob_def)
  have sig: "ex_verifyMessage ''0xAbC'' ''sign me'' ''signed:0xAbC:sign me''"
    by (simp add: ex_verifyMessage_def)
  from linkNewWallet_expired [OF user chal, of 960000 ex_verifyMessage ex_profiles_ok
      ex_recommendations_ok "''signed:0xAbC:sign me''"] user chal sig
  show ?thesis by simp
qed

text \<open>
  Claim C4, as stated, fails where the store refuses the second write. The social
  wallet is unique when present (the spec's data model), so \<open>user.update\<close> throws
  when another user already holds the lower-cased candidate address; the transaction
  then restores the deleted challenge. Here Bob's challenge is fresh and his signature
  verifies, but the address, lower-cased, is Alice's social wallet: the call throws and
  nothing changes.
\<close>

theorem linkNewWallet_links_counterexample:
  "user_findUnique_privyUserId ex_state_taken ''did:privy:bob'' = Some ex_bob \<and>
   signingChallenge_findFirst_userId ex_state_taken (user_id ex_bob) =
     Some \<lparr>userId = 2, publicKey = ''0xAAA'', message = ''sign me'', updatedAt = 0\<rparr> \<and>
   \<not> challenge_expired 600000
     \<lparr>userId = 2, publicKey = ''0xAAA'', message = ''sign me'', updatedAt = 0\<rparr> \<and>
   ex_verifyMessage ''0xAAA'' ''sign me'' ''signed:0xAAA:sign me'' \<and>
   linkNewWallet ex_verifyMessage ex_profiles_ok ex_recommendations_ok 600000
     ''did:privy:bob'' ''signed:0xAAA:sign me'' ex_state_taken =
     (Throws UniqueConstraintFailed, ex_state_taken)"
  by code_simp

text \<open>
  Claim C4, amended. On a store that satisfies its unique constraints, for a user with
  a challenge that passes the freshness check and a signature the verifier accepts for
  the stored message and the stored candidate address: when no other user holds the
  lower-cased candidate address as social wallet, the call returns the user's row
  with the social wallet set to that address, and in the state it leaves the user's
  challenge is deleted and the user's row, and no other, carries the new social wallet;
  when another user holds it, the store refuses the update, the transaction is rolled
  back, the call throws and the state is unchanged, the challenge included. In neither
  case is one of the two writes present without the other.
\<close>

theorem linkNewWallet_links:
  assumes ok: "store_ok s"
    and user: "user_findUnique_privyUserId s p = Some u"
    and chal: "signingChallenge_findFirst_userId s (user_id u) = Some c"
    and fresh: "\<not> challenge_expired now c"
    and sig: "verify (publicKey c) (message c) sg"
  shows
    "(\<not> list_ex (\<lambda>v. user_id v \<noteq> user_id u \<and> socialWallet v = Some (toLowerCase (publicKey c)))
          (users s) \<longrightarrow>
        (\<exists>s'. linkNewWallet verify upd rec now p sg s =
                (Data (u\<lparr>socialWallet := Some (toLowerCase (publicKey c))\<rparr>), s') \<and>
              signingChallenge_findFirst_userId s' (user_id u) = None \<and>
              signingChallenges s' = filter (\<lambda>d. userId d \<noteq> user_id u) (signingChallenges s) \<and>
              user_findUnique_privyUserId s' p =
                Some (u\<lparr>socialWallet := Some (toLowerCase (publicKey c))\<rparr>) \<and>
              users s' =
                map (\<lambda>v. if v = u then u\<lparr>socialWallet := Some (toLowerCase (publicKey c))\<rparr> else v)
                  (users s) \<and>
              inviteCodes s' = inviteCodes s)) \<and>
     (list_ex (\<lambda>v. user_id v \<noteq> user_id u \<and> socialWallet v = Some (toLowerCase (publicKey c)))
          (users s) \<longrightarrow>
        linkNewWallet verify upd rec now p sg s = (Throws UniqueConstraintFailed, s))"
proof -
  let ?w = "toLowerCase (publicKey c)"
  let ?taken = "list_ex (\<lambda>v. user_id v \<noteq> user_id u \<and> socialWallet v = Some ?w) (users s)"
  let ?u' = "u\<lparr>socialWallet := Some ?w\<rparr>"
  let ?g = "\<lambda>v. if user_id v = user_id u then v\<lparr>socialWallet := Some ?w\<rparr> else v"
  let ?s1 = "s\<lparr>signingChallenges := filter (\<lambda>d. userId d \<noteq> user_id u) (signingChallenges s),
               users := map ?g (users s)\<rparr>"
  from user have uin: "u \<in> set (users s)" and up: "privyUserId u = p"
    by (auto simp: user_findUnique_privyUserId_def dest: find_SomeD)
  from ok have ids: "distinct (map user_id (users s))"
    by (simp add: store_ok_def)
  have byid: "user_findUnique_id s (user_id u) = Some u"
    unfolding user_findUnique_id_def by (rule find_distinct_key[OF ids uin])
  have tx: "linkNewWallet_transaction s u c =
      (if ?taken then (Throws UniqueConstraintFailed, s) else (Data ?u', ?s1))"
    by (simp add: linkNewWallet_transaction_unfold chal byid)
  have refused: "linkNewWallet verify upd rec now p sg s = (Throws UniqueConstraintFailed, s)"
    if "?taken"
    using that user chal fresh sig by (simp add: linkNewWallet_unfold tx)
  have linked: "\<exists>s'. linkNewWallet verify upd rec now p sg s = (Data ?u', s') \<and>
      signingChallenges s' = signingChallenges ?s1 \<and> users s' = users ?s1 \<and>
      inviteCodes s' = inviteCodes s"
    if "\<not> ?taken"
    using that user chal fresh sig
    by (auto simp: linkNewWallet_unfold tx console_error_def split: option.splits)
  have gone: "find (\<lambda>d. userId d = user_id u)
      (filter (\<lambda>d. userId d \<noteq> user_id u) (signingChallenges s)) = None"
    by (simp add: find_None_iff)
  have tab: "map ?g (users s) = map (\<lambda>v. if v = u then ?u' else v) (users s)"
    by (rule map_update_distinct_key[OF ids uin])
  have look: "find (\<lambda>v. privyUserId v = p) (map ?g (users s)) = Some ?u'"
    using find_map_preserved[of "\<lambda>v. privyUserId v = p" "users s" u ?g] user
    by (simp add: user_findUnique_privyUserId_def)
  show ?thesis
  proof (intro conjI impI)
    assume "\<not> ?taken"
    from linked[OF this] obtain s' where
      s': "linkNewWallet verify upd rec now p sg s = (Data ?u', s')"
      "signingChallenges s' = signingChallenges ?s1" "users s' = users ?s1"
      "inviteCodes s' = inviteCodes s"
      by blast
    show "\<exists>s'. linkNewWallet verify upd rec now p sg s = (Data ?u', s') \<and>
              signingChallenge_findFirst_userId s' (user_id u) = None \<and>
              signingChallenges s' = filter (\<lambda>d. userId d \<noteq> user_id u) (signingChallenges s) \<and>
              user_findUnique_privyUserId s' p = Some ?u' \<and>
              users s' = map (\<lambda>v. if v = u then ?u' else v) (users s) \<and>
              inviteCodes s' = inviteCodes s"
    proof (intro exI[of _ s'] conjI)
      show "linkNewWallet verify upd rec now p sg s = (Data ?u', s')"
        by (rule s'(1))
      show "signingChallenge_findFirst_userId s' (user_id u) = None"
        using gone by (simp add: signingChallenge_findFirst_userId_def s'(2))
      show "signingChallenges s' = filter (\<lambda>d. userId d \<noteq> user_id u) (signingChallenges s)"
        by (simp add: s'(2))
      have us: "users s' = map ?g (users s)"
        by (simp add: s'(3))
      show "user_findUnique_privyUserId s' p = Some ?u'"
        unfolding user_findUnique_privyUserId_def us by (rule look)
      show "users s' = map (\<lambda>v. if v = u then ?u' else v) (users s)"
        unfolding us by (rule tab)
      show "inviteCodes s' = inviteCodes s"
        by (rule s'(4))
    qed
  next
    assume "?taken"
    then show "linkNewWallet verify upd rec now p sg s = (Throws UniqueConstraintFailed, s)"
      by (rule refused)
  qed
qed

text \<open>
  Ten minutes after the update, Bob's valid signature links \<open>0xabc\<close>, which nobody
  holds, and his challenge is gone.
\<close>

theorem linkNewWallet_links_witness:
  "store_ok ex_state \<and>
   user_findUnique_privyUserId ex_state ''did:privy:bob'' = Some ex_bob \<and>
   signingChallenge_findFirst_userId ex_state (user_id ex_bob) =
     Some \<lparr>userId = 2, publicKey = ''0xAbC'', message = ''sign me'', updatedAt = 0\<rparr> \<and>
   \<not> challenge_expired 600000
     \<lparr>userId = 2, publicKey = ''0xAbC'', message = ''sign me'', updatedAt = 0\<rparr> \<and>
   ex_verifyMessage ''0xAbC'' ''sign me'' ''signed:0xAbC:sign me'' \<and>
   fst (linkNewWallet ex_verifyMessage ex_profiles_ok ex_recommendations_ok 600000
     ''did:privy:bob'' ''signed:0xAbC:sign me'' ex_state) =
     Data (ex_bob\<lparr>socialWallet := Some ''0xabc''\<rparr>) \<and>
   signingChallenge_findFirst_userId
     (snd (linkNewWallet ex_verifyMessage ex_profiles_ok ex_recommendations_ok 600000
     ''did:privy:bob'' ''signed:0xAbC:sign me'' ex_state)) (user_id ex_bob) = None \<and>
   user_findUnique_privyUserId
     (snd (linkNewWallet ex_verifyMessage ex_profiles_ok ex_recommendations_ok 600000
     ''did:privy:bob'' ''signed:0xAbC:sign me'' ex_state)) ''did:privy:bob'' =
     Some (ex_bob\<lparr>socialWallet := Some ''0xabc''\<rparr>)"
proof -
  let ?c = "\<lparr>userId = 2, publicKey = ''0xAbC'', message = ''sign me'', updatedAt = 0\<rparr>"
  have ok: "store_ok ex_state"
    by (simp add: store_ok_def ex_state_def ex_user_def social_wallets_def)
  have user: "user_findUnique_privyUserId ex_state ''did:privy:bob'' = Some ex_bob"
    by (simp add: user_findUnique_privyUserId_def ex_state_def ex_user_def ex_bob_def)
  have chal: "signingChallenge_findFirst_userId ex_state (user_id ex_bob) = Some ?c"
    by (simp add: signingChallenge_findFirst_userId_def ex_state_def ex_user_def ex_bob_def)
  have fresh: "\<not> challenge_expired 600000 ?c"
    by (simp add: challenge_expired_iff)
  have sig: "ex_verifyMessage (publicKey ?c) (message ?c) ''signed:0xAbC:sign me''"
    by (simp add: ex_verifyMessage_def)
  have lower: "toLowerCase (publicKey ?c) = ''0xabc''"
    by code_simp
  have free: "\<not> list_ex (\<lambda>v. user_id v \<noteq> user_id ex_bob \<and> socialWallet v = Some ''0xabc'')
      (users ex_state)"
    by (simp add: ex_state_def ex_user_def ex_bob_def)
  from linkNewWallet_links [where verify = ex_verifyMessage and upd = ex_profiles_ok
      and rec = ex_recommendations_ok and sg = "''signed:0xAbC:sign me''",
      OF ok user chal fresh sig] free
  have "\<exists>s'. linkNewWallet ex_verifyMessage ex_profiles_ok ex_recommendations_ok 600000
     ''did:privy:bob'' ''signed:0xAbC:sign me'' ex_state =
       (Data (ex_bob\<lparr>socialWallet := Some ''0xabc''\<rparr>), s') \<and>
       signingChallenge_findFirst_userId s' (user_id ex_bob) = None \<and>
       user_findUnique_privyUserId s' ''did:privy:bob'' =
         Some (ex_bob\<lparr>socialWallet := Some ''0xabc''\<rparr>)"
    unfolding lower by blast
  with ok user chal fresh sig show ?thesis by auto
qed

text \<open>
  Claim C5. For a user who has a challenge that passes the freshness check: when the
  verifier rejects the signature for the stored message and the stored candidate
  address, the call returns \<open>INVALID_SIGNATURE\<close> and the state is unchanged; the user's
  row, with its social wallet, and the challenge row are as before.
\<close>

theorem linkNewWallet_invalid_signature:
  assumes user: "user_findUnique_privyUserId s p = Some u"
    and chal: "signingChallenge_findFirst_userId s (user_id u) = Some c"
    and fresh: "\<not> challenge_expired now c"
    and bad: "\<not> verify (publicKey c) (message c) sg"
  shows "linkNewWallet verify upd rec now p sg s = (Error INVALID_SIGNATURE, s) \<and>
         user_findUnique_privyUserId (snd (linkNewWallet verify upd rec now p sg s)) p = Some u \<and>
         signingChallenge_findFirst_userId (snd (linkNewWallet verify upd rec now p sg s))
           (user_id u) = Some c"
  using assms by (simp add: linkNewWallet_unfold)

text \<open>
  Ten minutes after the update, a signature made for the lower-cased address does not
  verify against the stored address \<open>0xAbC\<close>.
\<close>

theorem linkNewWallet_invalid_signature_witness:
  "user_findUnique_privyUserId ex_state ''did:privy:bob'' = Some ex_bob \<and>
   signingChallenge_findFirst_userId ex_state (user_id ex_bob) =
     Some \<lparr>userId = 2, publicKey = ''0xAbC'', message = ''sign me'', updatedAt = 0\<rparr> \<and>
   \<not> challenge_expired 600000
     \<lparr>userId = 2, publicKey = ''0xAbC'', message = ''sign me'', updatedAt = 0\<rparr> \<and>
   \<not> ex_verifyMessage ''0xAbC'' ''sign me'' ''signed:0xabc:sign me'' \<and>
   linkNewWallet ex_verifyMessage ex_profiles_ok ex_recommendations_ok 600000
     ''did:privy:bob'' ''signed:0xabc:sign me'' ex_state = (Error INVALID_SIGNATURE, ex_state)"
proof -
  let ?c = "\<lparr>userId = 2, publicKey = ''0xAbC'', message = ''sign me'', updatedAt = 0\<rparr>"
  have user: "user_findUnique_privyUserId ex_state ''did:privy:bob'' = Some ex_bob"
    by (simp add: user_findUnique_privyUserId_def ex_state_def ex_user_def ex_bob_def)
  have chal: "signingChallenge_findFirst_userId ex_state (user_id ex_bob) = Some ?c"
    by (simp add: signingChallenge_findFirst_userId_def ex_state_def ex_user_def ex_bob_def)
  have fresh: "\<not> challenge_expired 600000 ?c"
    by (simp add: challenge_expired_iff)
  have bad: "\<not> ex_verifyMessage (publicKey ?c) (message ?c) ''signed:0xabc:sign me''"
    by (simp add: ex_verifyMessage_def)
  from linkNewWallet_invalid_signature [where verify = ex_verifyMessage
      and sg = "''signed:0xabc:sign me''" and upd = ex_profiles_ok and rec = ex_recommendations_ok,
      OF user chal fresh bad] user chal fresh bad
  show ?thesis by simp
qed

text \<open>
  Claim C8. For a call of \<open>linkNewWallet\<close> whose transaction has committed (the
  challenge is deleted and the social wallet set, giving the row \<open>u'\<close> and the state
  \<open>s1\<close>), a failure of the profile enrichment or of the recommendation update is not
  passed on and undoes nothing: the call returns \<open>Data u'\<close> with the social wallet set,
  and the tables it leaves are those of the committed state. A failure that reaches the
  \<^verbatim>\<open>catch\<close> adds one line to the console, and nothing else changes.
\<close>

theorem linkNewWallet_side_effects_fail:
  assumes user: "user_findUnique_privyUserId s p = Some u"
    and chal: "signingChallenge_findFirst_userId s (user_id u) = Some c"
    and fresh: "\<not> challenge_expired now c"
    and sig: "verify (publicKey c) (message c) sg"
    and commit: "linkNewWallet_transaction s u c = (Data u', s1)"
    and failure: "upd (user_id u') (toLowerCase (publicKey c)) \<noteq> Completes \<or>
                  rec (toLowerCase (publicKey c)) \<noteq> Completes"
  shows "fst (linkNewWallet verify upd rec now p sg s) = Data u' \<and>
         socialWallet u' = Some (toLowerCase (publicKey c)) \<and>
         u' \<in> set (users (snd (linkNewWallet verify upd rec now p sg s))) \<and>
         signingChallenge_findFirst_userId (snd (linkNewWallet verify upd rec now p sg s))
           (user_id u) = None \<and>
         users (snd (linkNewWallet verify upd rec now p sg s)) = users s1 \<and>
         signingChallenges (snd (linkNewWallet verify upd rec now p sg s)) =
           signingChallenges s1 \<and>
         inviteCodes (snd (linkNewWallet verify upd rec now p sg s)) = inviteCodes s1 \<and>
         console (snd (linkNewWallet verify upd rec now p sg s)) =
           (case try_side_effects upd rec (user_id u') (toLowerCase (publicKey c)) of
              Some err \<Rightarrow> console s1 @ [(''Error while updating social profiles: '', err)]
            | None \<Rightarrow> console s1)"
proof -
  let ?w = "toLowerCase (publicKey c)"
  let ?R = "linkNewWallet verify upd rec now p sg s"
  have R: "?R = (case try_side_effects upd rec (user_id u') ?w of
                   Some err \<Rightarrow> (Data u', console_error ''Error while updating social profiles: '' err s1)
                 | None \<Rightarrow> (Data u', s1))"
    using user chal fresh sig commit by (simp add: linkNewWallet_unfold)
  from commit obtain u0 where
    u0: "user_findUnique_id s (user_id u) = Some u0" and
    u': "u' = u0\<lparr>socialWallet := Some ?w\<rparr>" and
    s1: "s1 = s\<lparr>signingChallenges := filter (\<lambda>d. userId d \<noteq> user_id u) (signingChallenges s),
               users := map (\<lambda>v. if user_id v = user_id u then v\<lparr>socialWallet := Some ?w\<rparr> else v)
                          (users s)\<rparr>"
    by (auto simp: linkNewWallet_transaction_unfold split: option.splits if_splits)
  from u0 have "u0 \<in> set (users s)" "user_id u0 = user_id u"
    by (auto simp: user_findUnique_id_def dest: find_SomeD)
  then have mem: "u' \<in> set (users s1)"
    by (force simp: s1 u')
  have gone: "signingChallenge_findFirst_userId s1 (user_id u) = None"
    by (simp add: signingChallenge_findFirst_userId_def s1 find_None_iff)
  show ?thesis
    using mem gone
    by (cases "try_side_effects upd rec (user_id u') ?w")
      (simp_all add: R console_error_def signingChallenge_findFirst_userId_def u')
qed

text \<open>
  Bob links his wallet while the profile service is down: his row is returned, the
  link and the deletion stand, and the failure is logged.
\<close>

theorem linkNewWallet_side_effects_fail_witness:
  "linkNewWallet_transaction ex_state ex_bob
     \<lparr>userId = 2, publicKey = ''0xAbC'', message = ''sign me'', updatedAt = 0\<rparr> =
     (Data (ex_bob\<lparr>socialWallet := Some ''0xabc''\<rparr>),
      ex_state\<lparr>users := [ex_user 1 ''did:privy:alice'' ''0xa11ce'' (Some ''0xaaa''),
                           ex_bob\<lparr>socialWallet := Some ''0xabc''\<rparr>,
                           ex_user 3 ''did:privy:carol'' ''0xca401'' (Some ''0xccc'')],
                signingChallenges := []\<rparr>) \<and>
   ex_profiles_fail 2 ''0xabc'' = Rejects ''profile service unreachable'' \<and>
   linkNewWallet ex_verifyMessage ex_profiles_fail ex_recommendations_ok 600000
     ''did:privy:bob'' ''signed:0xAbC:sign me'' ex_state =
     (Data (ex_bob\<lparr>socialWallet := Some ''0xabc''\<rparr>),
      ex_state\<lparr>users := [ex_user 1 ''did:privy:alice'' ''0xa11ce'' (Some ''0xaaa''),
                           ex_bob\<lparr>socialWallet := Some ''0xabc''\<rparr>,
                           ex_user 3 ''did:privy:carol'' ''0xca401'' (Some ''0xccc'')],
                signingChallenges := [],
                console := [(''Error while updating social profiles: '',
                             ''profile service unreachable'')]\<rparr>)"
proof -
  let ?c = "\<lparr>userId = 2, publicKey = ''0xAbC'', message = ''sign me'', updatedAt = 0\<rparr>"
  let ?bob = "ex_bob\<lparr>socialWallet := Some ''0xabc''\<rparr>"
  let ?s1 = "ex_state\<lparr>users := [ex_user 1 ''did:privy:alice'' ''0xa11ce'' (Some ''0xaaa''),
                           ?bob,
                           ex_user 3 ''did:privy:carol'' ''0xca401'' (Some ''0xccc'')],
                signingChallenges := []\<rparr>"
  let ?R = "linkNewWallet ex_verifyMessage ex_profiles_fail ex_recommendations_ok 600000
     ''did:privy:bob'' ''signed:0xAbC:sign me'' ex_state"
  have user: "user_findUnique_privyUserId ex_state ''did:privy:bob'' = Some ex_bob"
    by (simp add: user_findUnique_privyUserId_def ex_state_def ex_user_def ex_bob_def)
  have chal: "signingChallenge_findFirst_userId ex_state (user_id ex_bob) = Some ?c"
    by (simp add: signingChallenge_findFirst_userId_def ex_state_def ex_user_def ex_bob_def)
  have fresh: "\<not> challenge_expired 600000 ?c"
    by (simp add: challenge_expired_iff)
  have sig: "ex_verifyMessage (publicKey ?c) (message ?c) ''signed:0xAbC:sign me''"
    by (simp add: ex_verifyMessage_def)
  have lower: "toLowerCase ''0xAbC'' = ''0xabc''"
    by code_simp
  have commit: "linkNewWallet_transaction ex_state ex_bob ?c = (Data ?bob, ?s1)"
    by code_simp
  have failure: "ex_profiles_fail (user_id ?bob) (toLowerCase (publicKey ?c)) \<noteq> Completes \<or>
      ex_recommendations_ok (toLowerCase (publicKey ?c)) \<noteq> Completes"
    by (simp add: ex_profiles_fail_def)
  have caught: "try_side_effects ex_profiles_fail ex_recommendations_ok uid w =
      Some ''profile service unreachable''" for uid w
    by (simp add: try_side_effects_def ex_profiles_fail_def)
  from linkNewWallet_side_effects_fail [where verify = ex_verifyMessage
      and upd = ex_profiles_fail and rec = ex_recommendations_ok
      and sg = "''signed:0xAbC:sign me''", OF user chal fresh sig commit failure]
  have "fst ?R = Data ?bob" "users (snd ?R) = users ?s1"
    "signingChallenges (snd ?R) = signingChallenges ?s1"
    "inviteCodes (snd ?R) = inviteCodes ?s1"
    "console (snd ?R) = console ?s1 @ [(''Error while updating social profiles: '',
                             ''profile service unreachable'')]"
    by (simp_all add: lower caught)
  then have "?R = (Data ?bob, ?s1\<lparr>console := [(''Error while updating social profiles: '',
                             ''profile service unreachable'')]\<rparr>)"
    by (cases ?R) (simp add: ex_state_def)
  with commit show ?thesis
    by (simp add: ex_profiles_fail_def)
qed

subsection \<open>generateChallenge\<close>



text \<open>
  Claim C10. \<open>generateChallenge\<close> stores the candidate address exactly as given: the
  row it returns, which is the row found for the user afterwards, has the given
  \<open>publicKey\<close>. \<open>linkNewWallet\<close> consults the verifier only at the stored address,
  the stored message and the given signature: two verifiers that agree there give the
  same result and state. A call that returns \<open>Data u'\<close> was accepted by the verifier at
  the stored address, and the social wallet of \<open>u'\<close> is the lower-cased stored
  address.
\<close>

theorem challenge_address_unnormalized:
  "(generateChallenge now t p pk s = (Data ch, s') \<longrightarrow>
      publicKey ch = pk \<and> signingChallenge_findFirst_userId s' (userId ch) = Some ch) \<and>
   (user_findUnique_privyUserId s p = Some u \<and>
    signingChallenge_findFirst_userId s (user_id u) = Some c \<and>
    verify (publicKey c) (message c) sg = verify' (publicKey c) (message c) sg \<longrightarrow>
      linkNewWallet verify upd rec now p sg s = linkNewWallet verify' upd rec now p sg s) \<and>
   (user_findUnique_privyUserId s p = Some u \<and>
    signingChallenge_findFirst_userId s (user_id u) = Some c \<and>
    linkNewWallet verify upd rec now p sg s = (Data u', s'') \<longrightarrow>
      verify (publicKey c) (message c) sg \<and>
      socialWallet u' = Some (toLowerCase (publicKey c)))"
proof -
  have stored: "publicKey ch = pk \<and> signingChallenge_findFirst_userId s' (userId ch) = Some ch"
    if run: "generateChallenge now t p pk s = (Data ch, s')"
  proof -
    from run obtain v :: User where
      "signingChallenge_upsert s (user_id v) (challenge_message now pk) pk t = (Data ch, s')"
      by (auto simp: generateChallenge_unfold split: option.splits)
    from upsert_stored[OF this] show ?thesis
      by auto
  qed
  have same: "linkNewWallet verify upd rec now p sg s = linkNewWallet verify' upd rec now p sg s"
    if "user_findUnique_privyUserId s p = Some u"
      "signingChallenge_findFirst_userId s (user_id u) = Some c"
      "verify (publicKey c) (message c) sg = verify' (publicKey c) (message c) sg"
    using that by (simp add: linkNewWallet_unfold)
  have linked: "verify (publicKey c) (message c) sg \<and>
      socialWallet u' = Some (toLowerCase (publicKey c))"
    if "user_findUnique_privyUserId s p = Some u"
      "signingChallenge_findFirst_userId s (user_id u) = Some c"
      "linkNewWallet verify upd rec now p sg s = (Data u', s'')"
    using that
    by (auto simp: linkNewWallet_unfold linkNewWallet_transaction_unfold
        split: if_splits option.splits)
  from stored same linked show ?thesis
    by blast
qed

text \<open>
  Alice's challenge for \<open>0xAbCd\<close> is stored with its capitals. Bob's challenge holds
  \<open>0xAbC\<close>: a signature under \<open>0xAbC\<close> is accepted although the toy scheme rejects it
  under \<open>0xabc\<close>, the social wallet written is \<open>0xabc\<close>, and a verifier that only
  looks at the address behaves the same.
\<close>

theorem challenge_address_unnormalized_witness:
  "generateChallenge 1700000000000 1700000000005 ''did:privy:alice'' ''0xAbCd'' ex_state =
     (Data \<lparr>userId = 1, publicKey = ''0xAbCd'',
             message = challenge_message 1700000000000 ''0xAbCd'', updatedAt = 1700000000005\<rparr>,
      ex_state\<lparr>signingChallenges :=
        [\<lparr>userId = 2, publicKey = ''0xAbC'', message = ''sign me'', updatedAt = 0\<rparr>,
         \<lparr>userId = 1, publicKey = ''0xAbCd'',
           message = challenge_message 1700000000000 ''0xAbCd'', updatedAt = 1700000000005\<rparr>]\<rparr>) \<and>
   toLowerCase ''0xAbCd'' \<noteq> ''0xAbCd'' \<and>
   signingChallenge_findFirst_userId
     (snd (generateChallenge 1700000000000 1700000000005 ''did:privy:alice'' ''0xAbCd'' ex_state))
     1 =
     Some \<lparr>userId = 1, publicKey = ''0xAbCd'',
             message = challenge_message 1700000000000 ''0xAbCd'', updatedAt = 1700000000005\<rparr> \<and>
   ex_verifyMessage ''0xAbC'' ''sign me'' ''signed:0xAbC:sign me'' \<and>
   \<not> ex_verifyMessage ''0xabc'' ''sign me'' ''signed:0xAbC:sign me'' \<and>
   fst (linkNewWallet ex_verifyMessage ex_profiles_ok ex_recommendations_ok 600000
     ''did:privy:bob'' ''signed:0xAbC:sign me'' ex_state) =
     Data (ex_bob\<lparr>socialWallet := Some ''0xabc''\<rparr>) \<and>
   linkNewWallet (\<lambda>a m sg. a = ''0xAbC'') ex_profiles_ok ex_recommendations_ok 600000
     ''did:privy:bob'' ''signed:0xAbC:sign me'' ex_state =
   linkNewWallet ex_verifyMessage ex_profiles_ok ex_recommendations_ok 600000
     ''did:privy:bob'' ''signed:0xAbC:sign me'' ex_state"
proof -
  let ?ch = "\<lparr>userId = 1, publicKey = ''0xAbCd'',
             message = challenge_message 1700000000000 ''0xAbCd'', updatedAt = 1700000000005\<rparr>"
  let ?c = "\<lparr>userId = 2, publicKey = ''0xAbC'', message = ''sign me'', updatedAt = 0\<rparr>"
  let ?s1 = "ex_state\<lparr>signingChallenges := [?c, ?ch]\<rparr>"
  let ?bob = "ex_bob\<lparr>socialWallet := Some ''0xabc''\<rparr>"
  let ?s2 = "ex_state\<lparr>users := [ex_user 1 ''did:privy:alice'' ''0xa11ce'' (Some ''0xaaa''),
                           ?bob,
                           ex_user 3 ''did:privy:carol'' ''0xca401'' (Some ''0xccc'')],
                signingChallenges := []\<rparr>"
  have alice: "user_findUnique_privyUserId ex_state ''did:privy:alice'' =
      Some (ex_user 1 ''did:privy:alice'' ''0xa11ce'' (Some ''0xaaa''))"
    by (simp add: user_findUnique_privyUserId_def ex_state_def ex_user_def)
  have run: "generateChallenge 1700000000000 1700000000005 ''did:privy:alice'' ''0xAbCd'' ex_state =
      (Data ?ch, ?s1)"
    by (simp add: generateChallenge_unfold alice signingChallenge_upsert_def
        signingChallenge_findFirst_userId_def ex_user_def Let_def)
      (simp add: ex_state_def Let_def)
  have lower: "toLowerCase ''0xAbCd'' \<noteq> ''0xAbCd''"
    by code_simp
  have user: "user_findUnique_privyUserId ex_state ''did:privy:bob'' = Some ex_bob"
    by (simp add: user_findUnique_privyUserId_def ex_state_def ex_user_def ex_bob_def)
  have chal: "signingChallenge_findFirst_userId ex_state (user_id ex_bob) = Some ?c"
    by (simp add: signingChallenge_findFirst_userId_def ex_state_def ex_user_def ex_bob_def)
  have link: "linkNewWallet ex_verifyMessage ex_profiles_ok ex_recommendations_ok 600000
     ''did:privy:bob'' ''signed:0xAbC:sign me'' ex_state = (Data ?bob, ?s2)"
    by code_simp
  have sigs: "ex_verifyMessage ''0xAbC'' ''sign me'' ''signed:0xAbC:sign me''"
    "\<not> ex_verifyMessage ''0xabc'' ''sign me'' ''signed:0xAbC:sign me''"
    by (simp_all add: ex_verifyMessage_def)
  note inst = challenge_address_unnormalized [where s = ex_state and ch = ?ch and s' = ?s1
      and p = "''did:privy:bob''" and u = ex_bob and c = ?c and verify = "\<lambda>a m sg. a = ''0xAbC''"
      and verify' = ex_verifyMessage and sg = "''signed:0xAbC:sign me''"
      and upd = ex_profiles_ok and rec = ex_recommendations_ok and now = 600000]
  have found: "signingChallenge_findFirst_userId ?s1 1 = Some ?ch"
    using challenge_address_unnormalized [where s = ex_state and ch = ?ch and s' = ?s1
      and now = 1700000000000 and t = 1700000000005 and p = "''did:privy:alice''"
      and pk = "''0xAbCd''"] run
    by simp
  have same: "linkNewWallet (\<lambda>a m sg. a = ''0xAbC'') ex_profiles_ok ex_recommendations_ok 600000
     ''did:privy:bob'' ''signed:0xAbC:sign me'' ex_state =
   linkNewWallet ex_verifyMessage ex_profiles_ok ex_recommendations_ok 600000
     ''did:privy:bob'' ''signed:0xAbC:sign me'' ex_state"
    using inst user chal sigs(1) by simp
  from run lower found sigs link same show ?thesis
    by simp
qed

subsection \<open>checkUsersExist\<close>

text \<open>
  Claim C9. \<open>checkUsersExist\<close> never fails and leaves the state as it is. It returns the
  stored users, in table order, whose social wallet is the lower-cased form of one of
  the given addresses. So the social wallets of the returned rows are exactly the
  lower-cased input addresses that are some stored user's social wallet, and an input
  address whose lower-cased form is nobody's social wallet contributes nothing.
\<close>

theorem checkUsersExist_subset:
  "\<exists>res. checkUsersExist wallets s = (Data res, s) \<and>
     res = filter (\<lambda>u. \<exists>w \<in> set wallets. socialWallet u = Some (toLowerCase w)) (users s) \<and>
     set (social_wallets res) = toLowerCase ` set wallets \<inter> set (social_wallets (users s)) \<and>
     (\<forall>w \<in> set wallets. toLowerCase w \<notin> set (social_wallets (users s)) \<longrightarrow>
        toLowerCase w \<notin> set (social_wallets res))"
proof -
  let ?res = "user_findMany_socialWallet_in s (map toLowerCase wallets)"
  have same: "?res = filter (\<lambda>u. \<exists>w \<in> set wallets. socialWallet u = Some (toLowerCase w)) (users s)"
    unfolding user_findMany_socialWallet_in_def
    by (rule filter_cong) (auto split: option.splits)
  have addrs: "set (social_wallets ?res) = toLowerCase ` set wallets \<inter> set (social_wallets (users s))"
    unfolding same social_wallets_set by auto
  have "checkUsersExist wallets s = (Data ?res, s)"
    by (simp add: checkUsersExist_def)
  with same addrs show ?thesis by auto
qed

text \<open>
  On the example store, \<open>0xAAA\<close> is Alice's social wallet once lower-cased and \<open>0xBBB\<close>
  is nobody's: only Alice's row comes back.
\<close>

theorem checkUsersExist_subset_witness:
  "checkUsersExist [''0xAAA'', ''0xBBB''] ex_state =
     (Data [ex_user 1 ''did:privy:alice'' ''0xa11ce'' (Some ''0xaaa'')], ex_state)"
proof -
  have l: "toLowerCase ''0xAAA'' = ''0xaaa''" "toLowerCase ''0xBBB'' = ''0xbbb''"
    by code_simp+
  show ?thesis
    using checkUsersExist_subset [of "[''0xAAA'', ''0xBBB'']" ex_state]
    by (simp add: l ex_state_def ex_user_def)
qed

end
